theory Spec2Isabelle
  imports Complex_Main "HOL-Library.FSet"
begin

section \<open>The source of randomness\<close>

text \<open>
  Every transform draws from the host's \<^verbatim>\<open>Math.random()\<close>. The draws are an input
  of the model: an infinite stream of raw natural numbers, consumed front to back. One
  call of \<^verbatim>\<open>Math.random()\<close> turns the next raw draw into a fraction of \<open>[0, 1)\<close>
  (at a resolution of a thousandth) and returns the rest of the stream.
\<close>

type_synonym rng = "nat \<Rightarrow> nat"

definition Math_random :: "rng \<Rightarrow> rat \<times> rng" where
  "Math_random g = (rat_of_nat (g 0 mod 1000) / 1000, g \<circ> Suc)"

text \<open>
  Modelled from the spec: \<^verbatim>\<open>getRandomInteger(min, max)\<close> of \<^verbatim>\<open>util/random\<close> is not
  among the sources. The spec's ranges (\<open>k \<in> [2,5)\<close> for \<^verbatim>\<open>getRandomInteger(2, 5)\<close>) and
  its use as an array index (\<^verbatim>\<open>getRandomInteger(0, stateValues.length)\<close>) make it the
  half-open range \<open>[min, max)\<close>: the floor of a uniform draw scaled to the range.
\<close>

definition getRandomInteger :: "int \<Rightarrow> int \<Rightarrow> rng \<Rightarrow> int \<times> rng" where
  "getRandomInteger lo hi g =
     (case Math_random g of (u, g') \<Rightarrow> (\<lfloor>u * of_int (hi - lo) + of_int lo\<rfloor>, g'))"

text \<open>
  Modelled from the spec: \<^verbatim>\<open>choice(array)\<close> of \<^verbatim>\<open>util/random\<close> picks one element of
  a non-empty array; the array is given as its first element and the rest.
\<close>

definition choice :: "'a \<Rightarrow> 'a list \<Rightarrow> rng \<Rightarrow> 'a \<times> rng" where
  "choice x xs g =
     (case getRandomInteger 0 (int (Suc (length xs))) g of (i, g') \<Rightarrow> ((x # xs) ! nat i, g'))"

text \<open>\<^verbatim>\<open>Array(n).fill(0).map(() => f())\<close>: \<open>n\<close> results of \<open>f\<close>, drawn left to right.\<close>

fun arrayFillMap :: "nat \<Rightarrow> (rng \<Rightarrow> 'a \<times> rng) \<Rightarrow> rng \<Rightarrow> 'a list \<times> rng" where
  "arrayFillMap 0 f g = ([], g)"
| "arrayFillMap (Suc n) f g =
     (case f g of (x, g1) \<Rightarrow> case arrayFillMap n f g1 of (xs, g2) \<Rightarrow> (x # xs, g2))"

text \<open>
  \<^verbatim>\<open>Transform.getPlaceholder\<close>: \<^verbatim>\<open>"__p_"\<close> followed by ten decimal digits, each the
  floor of ten times a fresh draw.
\<close>

definition digitChar :: "int \<Rightarrow> char" where
  "digitChar d = ''0123456789'' ! nat d"

definition genRanHex :: "nat \<Rightarrow> rng \<Rightarrow> string \<times> rng" where
  "genRanHex n g =
     arrayFillMap n (\<lambda>g. case Math_random g of (u, g') \<Rightarrow> (digitChar \<lfloor>u * 10\<rfloor>, g')) g"

definition getPlaceholder :: "rng \<Rightarrow> string \<times> rng" where
  "getPlaceholder g = (case genRanHex 10 g of (ds, g') \<Rightarrow> (''__p_'' @ ds, g'))"


fun shuffle :: "'a list \<Rightarrow> rng \<Rightarrow> 'a list \<times> rng" where
  "shuffle [] g = ([], g)"
| "shuffle (x # xs) g =
     (case shuffle xs g of
        (ys, g1) \<Rightarrow>
          case getRandomInteger 0 (int (length ys) + 1) g1 of
            (i, g2) \<Rightarrow> (take (nat i) ys @ x # drop (nat i) ys, g2))"


section \<open>The syntax tree\<close>

text \<open>
  A node is what the JavaScript object is: its \<^verbatim>\<open>type\<close> string, its scalar fields
  (a name, a literal value, an operator, a label, the text of a directive, flags) and its
  child nodes in key order.
  An array of nodes is a node of its own, of type \<^verbatim>\<open>Array\<close>, as the traversal visits it
  and lists it among the ancestors; an absent child (\<^verbatim>\<open>null\<close>) is a node of type
  \<^verbatim>\<open>Null\<close>.
\<close>

datatype lit = NumLit int | FracLit | StrLit string | BoolLit bool | NullLit

datatype attr =
    NoAttr
  | Name string
  | Value lit
  | Operator string
  | Label string
  | Computed bool
  | DeclKind string
  | Directive string
  | FnFlags bool bool

datatype node = Node (ntype: string) (attr: attr) (children: "node list")

text \<open>
  Modelled from the spec: the node constructors of \<^verbatim>\<open>util/gen\<close> are not among the
  sources; they build the ESTree shapes the spec's data model names.
\<close>

definition Null :: node where
  "Null = Node ''Null'' NoAttr []"

definition Array :: "node list \<Rightarrow> node" where
  "Array xs = Node ''Array'' NoAttr xs"

definition Identifier :: "string \<Rightarrow> node" where
  "Identifier x = Node ''Identifier'' (Name x) []"

definition Literal :: "lit \<Rightarrow> node" where
  "Literal v = Node ''Literal'' (Value v) []"

definition BinaryExpression :: "string \<Rightarrow> node \<Rightarrow> node \<Rightarrow> node" where
  "BinaryExpression operator left right = Node ''BinaryExpression'' (Operator operator) [left, right]"

definition ConditionalExpression :: "node \<Rightarrow> node \<Rightarrow> node \<Rightarrow> node" where
  "ConditionalExpression test consequent alternate =
     Node ''ConditionalExpression'' NoAttr [test, consequent, alternate]"

definition AssignmentExpression :: "string \<Rightarrow> node \<Rightarrow> node \<Rightarrow> node" where
  "AssignmentExpression operator left right =
     Node ''AssignmentExpression'' (Operator operator) [left, right]"

definition SequenceExpression :: "node list \<Rightarrow> node" where
  "SequenceExpression expressions = Node ''SequenceExpression'' NoAttr [Array expressions]"

definition ExpressionStatement :: "node \<Rightarrow> node" where
  "ExpressionStatement expression = Node ''ExpressionStatement'' NoAttr [expression]"

definition GotoStatement :: "string \<Rightarrow> node" where
  "GotoStatement l = Node ''GotoStatement'' (Label l) []"

definition BlockStatement :: "node list \<Rightarrow> node" where
  "BlockStatement body = Node ''BlockStatement'' NoAttr [Array body]"

definition BreakStatement :: "string \<Rightarrow> node" where
  "BreakStatement l = Node ''BreakStatement'' NoAttr [Identifier l]"

definition IfStatement :: "node \<Rightarrow> node list \<Rightarrow> node list option \<Rightarrow> node" where
  "IfStatement test consequent alternate =
     Node ''IfStatement'' NoAttr
       [test, BlockStatement consequent,
        (case alternate of None \<Rightarrow> Null | Some alt \<Rightarrow> BlockStatement alt)]"

definition MemberExpression :: "node \<Rightarrow> node \<Rightarrow> bool \<Rightarrow> node" where
  "MemberExpression object property computed = Node ''MemberExpression'' (Computed computed) [object, property]"

definition CallExpression :: "node \<Rightarrow> node list \<Rightarrow> node" where
  "CallExpression callee arguments = Node ''CallExpression'' NoAttr [callee, Array arguments]"

definition NewExpression :: "node \<Rightarrow> node list \<Rightarrow> node" where
  "NewExpression callee arguments = Node ''NewExpression'' NoAttr [callee, Array arguments]"

definition ArrayExpression :: "node list \<Rightarrow> node" where
  "ArrayExpression elements = Node ''ArrayExpression'' NoAttr [Array elements]"



definition ReturnStatement :: "node option \<Rightarrow> node" where
  "ReturnStatement argument =
     Node ''ReturnStatement'' NoAttr [case argument of None \<Rightarrow> Null | Some a \<Rightarrow> a]"

definition FunctionExpression :: "node list \<Rightarrow> node list \<Rightarrow> node" where
  "FunctionExpression params stmts =
     Node ''FunctionExpression'' (FnFlags False False) [Null, Array params, BlockStatement stmts]"

definition SpreadElement :: "node \<Rightarrow> node" where
  "SpreadElement argument = Node ''SpreadElement'' NoAttr [argument]"

definition UnaryExpression :: "string \<Rightarrow> node \<Rightarrow> node" where
  "UnaryExpression operator argument = Node ''UnaryExpression'' (Operator operator) [argument]"

definition LogicalExpression :: "string \<Rightarrow> node \<Rightarrow> node \<Rightarrow> node" where
  "LogicalExpression operator left right = Node ''LogicalExpression'' (Operator operator) [left, right]"

definition VariableDeclarator :: "node \<Rightarrow> node option \<Rightarrow> node" where
  "VariableDeclarator ident init =
     Node ''VariableDeclarator'' NoAttr [ident, case init of None \<Rightarrow> Null | Some i \<Rightarrow> i]"

definition VariableDeclaration :: "node list \<Rightarrow> node" where
  "VariableDeclaration declarations = Node ''VariableDeclaration'' (DeclKind ''var'') [Array declarations]"




text \<open>
  Modelled from the spec: \<^verbatim>\<open>isVarContext\<close> of \<^verbatim>\<open>util/insert\<close> is not among the
  sources; it is true for any function-like node or \<^verbatim>\<open>Program\<close>.
\<close>

definition isVarContext :: "node \<Rightarrow> bool" where
  "isVarContext n =
     (ntype n = ''Program'' \<or> ntype n = ''FunctionDeclaration''
      \<or> ntype n = ''FunctionExpression'' \<or> ntype n = ''ArrowFunctionExpression'')"

section \<open>Identifier occurrences\<close>

text \<open>
  The passes visit identifier nodes together with their ancestors. What they read of an
  occurrence is the node, its closest ancestor, whether it is that ancestor's \<^verbatim>\<open>left\<close>
  or \<^verbatim>\<open>callee\<close> (comparisons of object identity in the source), and the
  classification \<^verbatim>\<open>getIdentifierInfo\<close> gives it. \<^verbatim>\<open>getIdentifierInfo\<close> and
  \<^verbatim>\<open>getDefiningIdentifier\<close> belong to \<^verbatim>\<open>util/identifiers\<close>, which is not among the
  sources: their results are inputs.
\<close>

record identifierInfo =
  isReferenced :: bool
  isDefined :: bool
  isModified :: bool
  isFunctionDeclaration :: bool
  isFunctionCall :: bool

record occurrence =
  occNode :: node
  parent :: "node option"
  isParentLeft :: bool
  isParentCallee :: bool
  info :: identifierInfo

definition nodeName :: "node \<Rightarrow> string" where
  "nodeName n = (case attr n of Name x \<Rightarrow> x | _ \<Rightarrow> [])"

section \<open>Evaluating the expressions the flattening emits\<close>

text \<open>
  The state variables are integers far inside the range where JavaScript's numbers are
  exact, so a numeric value is an \<open>int\<close>. An expression outside the fragment below, or a
  read of an undeclared variable, has no value.
\<close>

datatype val = NumV int | BoolV bool

type_synonym env = "string \<Rightarrow> val option"

fun truthy :: "val \<Rightarrow> bool" where
  "truthy (NumV n) = (n \<noteq> 0)"
| "truthy (BoolV b) = b"

definition binop :: "string \<Rightarrow> val \<Rightarrow> val \<Rightarrow> val option" where
  "binop operator l r =
     (case (l, r) of
        (NumV a, NumV b) \<Rightarrow>
          if operator = ''+'' then Some (NumV (a + b))
          else if operator = ''-'' then Some (NumV (a - b))
          else if operator = ''*'' then Some (NumV (a * b))
          else if operator = ''<'' then Some (BoolV (a < b))
          else if operator = ''>'' then Some (BoolV (a > b))
          else None
      | _ \<Rightarrow> None)"

definition assignop :: "string \<Rightarrow> val option \<Rightarrow> val \<Rightarrow> val option" where
  "assignop operator old r =
     (if operator = ''='' then Some r
      else case old of
             None \<Rightarrow> None
           | Some l \<Rightarrow>
               if operator = ''+='' then binop ''+'' l r
               else if operator = ''-='' then binop ''-'' l r
               else if operator = ''*='' then binop ''*'' l r
               else None)"

fun eval :: "node \<Rightarrow> env \<Rightarrow> (val \<times> env) option"
  and evalSequence :: "node list \<Rightarrow> val option \<Rightarrow> env \<Rightarrow> (val \<times> env) option" where
  "eval (Node t a cs) env =
     (if t = ''Literal'' then
        (case a of
           Value (NumLit n) \<Rightarrow> Some (NumV n, env)
         | Value (BoolLit b) \<Rightarrow> Some (BoolV b, env)
         | _ \<Rightarrow> None)
      else if t = ''Identifier'' then
        (case a of
           Name x \<Rightarrow> (case env x of None \<Rightarrow> None | Some v \<Rightarrow> Some (v, env))
         | _ \<Rightarrow> None)
      else if t = ''BinaryExpression'' then
        (case (a, cs) of
           (Operator operator, [l, r]) \<Rightarrow>
             (case eval l env of
                None \<Rightarrow> None
              | Some (vl, env1) \<Rightarrow>
                  (case eval r env1 of
                     None \<Rightarrow> None
                   | Some (vr, env2) \<Rightarrow>
                       (case binop operator vl vr of
                          None \<Rightarrow> None
                        | Some v \<Rightarrow> Some (v, env2))))
         | _ \<Rightarrow> None)
      else if t = ''ConditionalExpression'' then
        (case cs of
           [c, x, y] \<Rightarrow>
             (case eval c env of
                None \<Rightarrow> None
              | Some (vc, env1) \<Rightarrow> if truthy vc then eval x env1 else eval y env1)
         | _ \<Rightarrow> None)
      else if t = ''AssignmentExpression'' then
        (case (a, cs) of
           (Operator operator, [Node lt (Name x) [], r]) \<Rightarrow>
             if lt = ''Identifier'' then
               (case eval r env of
                  None \<Rightarrow> None
                | Some (vr, env1) \<Rightarrow>
                    (case assignop operator (env x) vr of
                       None \<Rightarrow> None
                     | Some v \<Rightarrow> Some (v, env1(x \<mapsto> v))))
             else None
         | _ \<Rightarrow> None)
      else if t = ''SequenceExpression'' then
        (case cs of
           [Node ta aa es] \<Rightarrow> if ta = ''Array'' then evalSequence es None env else None
         | _ \<Rightarrow> None)
      else None)"
| "evalSequence [] prev env = (case prev of None \<Rightarrow> None | Some v \<Rightarrow> Some (v, env))"
| "evalSequence (e # es) prev env =
     (case eval e env of
        None \<Rightarrow> None
      | Some (v, env1) \<Rightarrow> evalSequence es (Some v) env1)"

section \<open>Control flow flattening: the chunking fraction\<close>

text \<open>
  Lines 141 to 148 of \<^verbatim>\<open>controlFlowFlattening.ts\<close>, over the rationals. The divisor is at
  least \<open>1.2\<close>, so the guard against \<^verbatim>\<open>NaN\<close> and infinity that follows in the source
  never fires and has no counterpart here.
\<close>

definition baseFraction :: "nat \<Rightarrow> rat" where
  "baseFraction n =
     (if n > 20 then (9 / 10) / max (6 / 5) (rat_of_nat n - 18) else 9 / 10)"

definition chunkFraction :: "nat \<Rightarrow> rat" where
  "chunkFraction n = min (1 / 10) (baseFraction n)"

section \<open>Control flow flattening: the state encoding\<close>

text \<open>
  A chunk is a label and the statements that run under it. Lines 456 to 520 of
  \<^verbatim>\<open>controlFlowFlattening.ts\<close> give every chunk a state total and a vector of state
  values. \<^verbatim>\<open>caseSelection\<close> is a JavaScript \<^verbatim>\<open>Set\<close>, which keeps insertion order:
  a list that a value joins at the end unless it is already there. The \<^verbatim>\<open>do ... while\<close>
  loop runs until the set has one total per chunk, which no bound on the draws ensures.
\<close>

record chunk =
  label :: string
  body :: "node list"

partial_function (option) drawStates :: "int list \<Rightarrow> nat \<Rightarrow> rng \<Rightarrow> (int list \<times> rng) option" where
  "drawStates caseSelection uniqueStatesNeeded g =
     (case getRandomInteger 1 (int uniqueStatesNeeded * 15) g of
        (newState, g') \<Rightarrow>
          let caseSelection' =
                (if newState \<in> set caseSelection then caseSelection
                 else caseSelection @ [newState])
          in if length caseSelection' \<noteq> uniqueStatesNeeded
             then drawStates caseSelection' uniqueStatesNeeded g'
             else Some (caseSelection', g'))"

definition getCurrentState :: "int list \<Rightarrow> int" where
  "getCurrentState stateValues = foldl (\<lambda>a b. b + a) 0 stateValues"

definition newStateValues :: "nat \<Rightarrow> int \<Rightarrow> rng \<Rightarrow> int list \<times> rng" where
  "newStateValues k state g =
     (case arrayFillMap k (getRandomInteger (- 250) 250) g of
        (stateValues, g1) \<Rightarrow>
          case getRandomInteger 0 (int (length stateValues)) g1 of
            (correctIndex, g2) \<Rightarrow>
              (stateValues[nat correctIndex :=
                 state - (getCurrentState stateValues - stateValues ! nat correctIndex)], g2))"

fun assignStates ::
  "chunk list \<Rightarrow> nat \<Rightarrow> int list \<Rightarrow> nat \<Rightarrow> (string \<rightharpoonup> int list) \<Rightarrow> rng
     \<Rightarrow> (int list list \<times> (string \<rightharpoonup> int list)) \<times> rng" where
  "assignStates [] i caseStates k labelToStates g = (([], labelToStates), g)"
| "assignStates (c # cs) i caseStates k labelToStates g =
     (case newStateValues k (caseStates ! i) g of
        (stateValues, g1) \<Rightarrow>
          case assignStates cs (Suc i) caseStates k (labelToStates(label c \<mapsto> stateValues)) g1 of
            ((rest, m), g2) \<Rightarrow> ((stateValues # rest, m), g2))"

definition discriminant :: "string list \<Rightarrow> node option" where
  "discriminant stateVars =
     (case stateVars of
        [] \<Rightarrow> None
      | v # vs \<Rightarrow> Some (foldl (\<lambda>e x. BinaryExpression ''+'' e (Identifier x)) (Identifier v) vs))"

record encoding =
  caseStates :: "int list"
  stateVars :: "string list"
  switchLabel :: string
  chunkStates :: "int list list"
  labelToStates :: "string \<rightharpoonup> int list"

definition stateEncoding :: "chunk list \<Rightarrow> rng \<Rightarrow> (encoding \<times> rng) option" where
  "stateEncoding chunks g =
     (case drawStates [] (length chunks) g of
        None \<Rightarrow> None
      | Some (states, g1) \<Rightarrow>
          (case getRandomInteger 2 5 g1 of
             (k, g2) \<Rightarrow>
               (case arrayFillMap (nat k) getPlaceholder g2 of
                  (vars, g3) \<Rightarrow>
                    (case getPlaceholder g3 of
                       (lbl, g4) \<Rightarrow>
                         (case assignStates chunks 0 states (length vars) Map.empty g4 of
                            ((vectors, m), g5) \<Rightarrow>
                              Some (\<lparr>caseStates = states, stateVars = vars, switchLabel = lbl,
                                     chunkStates = vectors, labelToStates = m\<rparr>, g5))))))"


section \<open>Control flow flattening: the transition encoding\<close>

text \<open>
  \<^verbatim>\<open>numberLiteral\<close> (lines 522 to 560) hides a number behind the state variables; the
  values it is given are those the variables hold where the expression will run.
  In the source the state variables are the array \<^verbatim>\<open>stateVars\<close> of the enclosing
  scope, here the first argument \<open>vars\<close>; \<open>vals\<close> is \<^verbatim>\<open>stateValues\<close>, which has one
  entry per state variable at every call. At depth 0 the threshold \<^verbatim>\<open>0.8 / (depth * 4)\<close>
  is infinite in JavaScript, so the draw is made and the comparison is false.
  \<^verbatim>\<open>createTransitionExpression\<close> (lines 562 to 601) updates one state variable and the
  array that tracks the values; the replacement of a \<^verbatim>\<open>GotoStatement\<close> (lines 662 to
  681) maps it over the indices of the current chunk's vector.
\<close>

function numberLiteral :: "string list \<Rightarrow> int \<Rightarrow> nat \<Rightarrow> int list \<Rightarrow> rng \<Rightarrow> node \<times> rng" where
  "numberLiteral vars num depth vals g =
     (if depth > 10 then (Literal (NumLit num), g)
      else case Math_random g of (r1, g1) \<Rightarrow>
        if depth \<noteq> 0 \<and> r1 > (8 / 10) / (rat_of_nat depth * 4) then (Literal (NumLit num), g1)
        else case getRandomInteger 0 (int (length vars)) g1 of (opposing, g2) \<Rightarrow>
          case Math_random g2 of (r2, g3) \<Rightarrow>
            if r2 > 1 / 2 then
              case getRandomInteger (- 250) 250 g3 of (x, g4) \<Rightarrow>
              case choice ''<'' [''>''] g4 of (operator, g5) \<Rightarrow>
              case numberLiteral vars num (depth + 1) vals g5 of (correct, g6) \<Rightarrow>
              case getRandomInteger (- 250) 250 g6 of (y, g7) \<Rightarrow>
              case numberLiteral vars y (depth + 1) vals g7 of (incorrect, g8) \<Rightarrow>
              case numberLiteral vars x (depth + 1) vals g8 of (test, g9) \<Rightarrow>
                let answer = (if operator = ''<'' then x < vals ! nat opposing
                              else x > vals ! nat opposing)
                in (ConditionalExpression
                      (BinaryExpression operator test (Identifier (vars ! nat opposing)))
                      (if answer then correct else incorrect)
                      (if answer then incorrect else correct), g9)
            else
              case numberLiteral vars (num - vals ! nat opposing) (depth + 1)
                     vals g3 of
                (e, g4) \<Rightarrow> (BinaryExpression ''+'' (Identifier (vars ! nat opposing)) e, g4))"
  by pat_completeness auto
termination
  by (relation "measure (\<lambda>(vars, num, depth, vals, g). 11 - depth)") auto

declare numberLiteral.simps [simp del]

definition createTransitionExpression ::
  "string list \<Rightarrow> nat \<Rightarrow> int \<Rightarrow> int list \<Rightarrow> rng \<Rightarrow> node \<times> int list \<times> rng" where
  "createTransitionExpression vars index add mutating g =
     (let newValue = mutating ! index + add
      in case Math_random g of (r, g1) \<Rightarrow>
        if r > 1 / 2 then
          case numberLiteral vars add 0 mutating g1 of (e, g2) \<Rightarrow>
            (AssignmentExpression ''+='' (Identifier (vars ! index)) e,
             mutating[index := newValue], g2)
        else
          let double = mutating ! index * 2;
              diff = double - newValue
          in case numberLiteral vars 2 0 mutating g1 of (two, g2) \<Rightarrow>
             case numberLiteral vars diff 0 (mutating[index := double]) g2 of
               (e, g3) \<Rightarrow>
                 (SequenceExpression
                    [AssignmentExpression ''*='' (Identifier (vars ! index)) two,
                     AssignmentExpression ''-='' (Identifier (vars ! index)) e],
                  mutating[index := double, index := newValue], g3))"

fun transitions ::
  "string list \<Rightarrow> int list \<Rightarrow> nat \<Rightarrow> nat \<Rightarrow> int list \<Rightarrow> rng \<Rightarrow> node list \<times> rng" where
  "transitions vars nextVals stateValueIndex 0 mutating g = ([], g)"
| "transitions vars nextVals stateValueIndex (Suc n) mutating g =
     (let diff = nextVals ! stateValueIndex - mutating ! stateValueIndex
      in case createTransitionExpression vars stateValueIndex diff mutating g of
           (e, m1, g1) \<Rightarrow>
             case transitions vars nextVals (Suc stateValueIndex) n m1 g1 of
               (es, g2) \<Rightarrow> (e # es, g2))"

definition gotoTransition :: "string list \<Rightarrow> int list \<Rightarrow> int list \<Rightarrow> rng \<Rightarrow> node \<times> rng" where
  "gotoTransition vars current nextVals g =
     (case transitions vars nextVals 0 (length current)
             current g of
        (es, g') \<Rightarrow> (SequenceExpression es, g'))"



section \<open>Example inputs\<close>

text \<open>A stream of draws that starts with the given numbers and continues with zeros.\<close>

fun drawsFrom :: "nat list \<Rightarrow> rng" where
  "drawsFrom [] n = 0"
| "drawsFrom (x # xs) 0 = x"
| "drawsFrom (x # xs) (Suc n) = drawsFrom xs n"

definition exampleDraws :: rng where
  "exampleDraws = drawsFrom
     [123, 500, 877, 254, 631, 8, 385, 762, 139, 516, 893, 270, 647, 24, 401, 778, 155, 532,
      909, 286, 663, 40, 417, 794, 171, 548, 925, 302, 679, 56, 433, 810, 187, 564, 941, 318,
      695, 72, 449, 826, 203, 580, 957, 334, 711, 88, 465, 842, 219, 596, 973, 350, 727, 104,
      481, 858, 235, 612, 989, 366, 743, 120, 497, 874, 251, 628, 5, 382, 759, 136]"

definition exampleChunks :: "chunk list" where
  "exampleChunks =
     [\<lparr>label = ''__p_0000000001'', body = []\<rparr>, \<lparr>label = ''__p_0000000002'', body = []\<rparr>,
      \<lparr>label = ''END_LABEL'', body = []\<rparr>]"

section \<open>Facts about the draws\<close>

lemma getRandomInteger_draw:
  "getRandomInteger lo hi g = (lo + (int (g 0 mod 1000) * (hi - lo)) div 1000, g \<circ> Suc)"
proof -
  have "rat_of_nat (g 0 mod 1000) / 1000 * rat_of_int (hi - lo) + rat_of_int lo
        = rat_of_int (int (g 0 mod 1000) * (hi - lo)) / rat_of_int 1000 + rat_of_int lo"
    by simp
  then have "\<lfloor>rat_of_nat (g 0 mod 1000) / 1000 * rat_of_int (hi - lo) + rat_of_int lo\<rfloor>
        = \<lfloor>rat_of_int (int (g 0 mod 1000) * (hi - lo)) / rat_of_int 1000\<rfloor> + lo"
    by (simp only: floor_add_int)
  also have "\<dots> = (int (g 0 mod 1000) * (hi - lo)) div 1000 + lo"
    by (simp only: floor_divide_of_int_eq)
  finally show ?thesis by (simp add: getRandomInteger_def Math_random_def)
qed

lemma genRanHex_draw:
  "(case Math_random g of (u, g') \<Rightarrow> (digitChar \<lfloor>u * 10\<rfloor>, g'))
     = (digitChar (int (g 0 mod 1000) div 100), g \<circ> Suc)"
proof -
  have "rat_of_nat (g 0 mod 1000) / 1000 * 10 = rat_of_int (int (g 0 mod 1000)) / rat_of_int 100"
    by simp
  then have "\<lfloor>rat_of_nat (g 0 mod 1000) / 1000 * 10\<rfloor> = int (g 0 mod 1000) div 100"
    by (simp only: floor_divide_of_int_eq)
  then show ?thesis by (simp add: Math_random_def)
qed


lemma arrayFillMap_numeral:
  "arrayFillMap (numeral n) f g =
     (case f g of (x, g1) \<Rightarrow> case arrayFillMap (pred_numeral n) f g1 of (xs, g2) \<Rightarrow> (x # xs, g2))"
  by (simp add: numeral_eq_Suc)

lemma Math_random_range: "0 \<le> fst (Math_random g) \<and> fst (Math_random g) < 1"
  by (simp add: Math_random_def)

lemma getRandomInteger_range:
  assumes "lo < hi"
  shows "lo \<le> fst (getRandomInteger lo hi g) \<and> fst (getRandomInteger lo hi g) < hi"
proof -
  let ?m = "int (g 0 mod 1000)"
  have m: "0 \<le> ?m" "?m < 1000" by simp_all
  have d: "0 < hi - lo" using assms by simp
  have "0 \<le> ?m * (hi - lo)" using m d by simp
  then have lower: "0 \<le> (?m * (hi - lo)) div 1000" by (simp add: pos_imp_zdiv_nonneg_iff)
  have "?m * (hi - lo) < 1000 * (hi - lo)" using m d by (intro mult_strict_right_mono) simp_all
  then have upper: "(?m * (hi - lo)) div 1000 < hi - lo" by (simp add: div_less_iff_less_mult)
  show ?thesis using lower upper by (simp add: getRandomInteger_draw)
qed

lemma arrayFillMap_length: "arrayFillMap n f g = (xs, g') \<Longrightarrow> length xs = n"
  by (induction n arbitrary: g xs) (auto split: prod.splits)

lemma length_arrayFillMap: "length (fst (arrayFillMap n f g)) = n"
  using arrayFillMap_length [of n f g] by (cases "arrayFillMap n f g") simp

lemma sum_list_list_update:
  fixes xs :: "int list"
  shows "i < length xs \<Longrightarrow> sum_list (xs[i := v]) = sum_list xs - xs ! i + v"
  by (induction xs arbitrary: i) (auto split: nat.splits)

lemma getCurrentState_sum: "getCurrentState xs = sum_list xs"
proof -
  have "foldl (\<lambda>a b. b + a) s xs = s + sum_list xs" for s :: int
    by (induction xs arbitrary: s) auto
  then show ?thesis by (simp add: getCurrentState_def)
qed

lemma newStateValues_sum:
  assumes "0 < k"
  shows "length (fst (newStateValues k state g)) = k
         \<and> getCurrentState (fst (newStateValues k state g)) = state"
proof -
  obtain vs g1 where a: "arrayFillMap k (getRandomInteger (- 250) 250) g = (vs, g1)"
    by (cases "arrayFillMap k (getRandomInteger (- 250) 250) g")
  have len: "length vs = k" using arrayFillMap_length [OF a] .
  obtain ci g2 where c: "getRandomInteger 0 (int (length vs)) g1 = (ci, g2)"
    by (cases "getRandomInteger 0 (int (length vs)) g1")
  have "0 \<le> ci \<and> ci < int (length vs)"
    using getRandomInteger_range [of 0 "int (length vs)" g1] c len assms by simp
  then have idx: "nat ci < length vs" by (simp add: nat_less_iff)
  have r: "fst (newStateValues k state g)
           = vs[nat ci := state - (getCurrentState vs - vs ! nat ci)]"
    by (simp add: newStateValues_def a c)
  show ?thesis
    unfolding r using idx len by (simp add: getCurrentState_sum sum_list_list_update)
qed

lemma drawStates_sound:
  assumes "drawStates sel n g = Some (res, g')"
    and "distinct sel" and "\<forall>s \<in> set sel. 1 \<le> s \<and> s \<le> 15 * int n"
  shows "length res = n \<and> distinct res \<and> (\<forall>s \<in> set res. 1 \<le> s \<and> s \<le> 15 * int n)"
proof -
  have "n \<noteq> 0 \<and> (distinct sel \<and> (\<forall>s \<in> set sel. 1 \<le> s \<and> s \<le> 15 * int n) \<longrightarrow>
        length (fst r) = n \<and> distinct (fst r) \<and> (\<forall>s \<in> set (fst r). 1 \<le> s \<and> s \<le> 15 * int n))"
    if ret: "drawStates sel n g = Some r" for r
  proof (rule drawStates.raw_induct
      [where P = "\<lambda>sel n g r. n \<noteq> 0 \<and> (distinct sel \<and> (\<forall>s \<in> set sel. 1 \<le> s \<and> s \<le> 15 * int n) \<longrightarrow>
        length (fst r) = n \<and> distinct (fst r) \<and> (\<forall>s \<in> set (fst r). 1 \<le> s \<and> s \<le> 15 * int n))",
       OF _ ret], goal_cases)
    case (1 drawStates' sel n g r)
    obtain s g1 where d: "getRandomInteger 1 (int n * 15) g = (s, g1)"
      by (cases "getRandomInteger 1 (int n * 15) g")
    let ?sel = "if s \<in> set sel then sel else sel @ [s]"
    have nz: "n \<noteq> 0"
    proof
      assume z: "n = 0"
      have "length ?sel \<noteq> 0" by auto
      then have "drawStates' ?sel n g1 = Some r" using 1(2) d z by (simp add: Let_def)
      then show False using 1(1) [of ?sel n g1 r] z by blast
    qed
    then have "(1::int) < int n * 15" by simp
    then have rng: "1 \<le> s \<and> s < int n * 15"
      using getRandomInteger_range [of 1 "int n * 15" g] d by simp
    have "distinct sel \<and> (\<forall>s \<in> set sel. 1 \<le> s \<and> s \<le> 15 * int n) \<longrightarrow>
        length (fst r) = n \<and> distinct (fst r) \<and> (\<forall>s \<in> set (fst r). 1 \<le> s \<and> s \<le> 15 * int n)"
    proof (intro impI)
      assume inv: "distinct sel \<and> (\<forall>s \<in> set sel. 1 \<le> s \<and> s \<le> 15 * int n)"
      have inv': "distinct ?sel \<and> (\<forall>s \<in> set ?sel. 1 \<le> s \<and> s \<le> 15 * int n)"
        using inv rng by auto
      show "length (fst r) = n \<and> distinct (fst r) \<and> (\<forall>s \<in> set (fst r). 1 \<le> s \<and> s \<le> 15 * int n)"
      proof (cases "length ?sel \<noteq> n")
        case True
        then have "drawStates' ?sel n g1 = Some r" using 1(2) d by (simp add: Let_def)
        then show ?thesis using 1(1) [of ?sel n g1 r] inv' by blast
      next
        case False
        then have "r = (?sel, g1)" using 1(2) d by (simp add: Let_def)
        then show ?thesis using inv' False by simp
      qed
    qed
    then show ?case using nz by blast
  qed
  then show ?thesis using assms by fastforce
qed

lemma assignStates_sums:
  assumes "assignStates cs i states k m g = ((vectors, m'), g')" and "0 < k"
  shows "length vectors = length cs
         \<and> (\<forall>j < length cs. length (vectors ! j) = k \<and> getCurrentState (vectors ! j) = states ! (i + j))"
  using assms
proof (induction cs arbitrary: i m g vectors m' g')
  case Nil
  then show ?case by simp
next
  case (Cons c cs)
  obtain sv g1 where n: "newStateValues k (states ! i) g = (sv, g1)"
    by (cases "newStateValues k (states ! i) g")
  obtain rest m2 g2 where r: "assignStates cs (Suc i) states k (m(label c \<mapsto> sv)) g1 = ((rest, m2), g2)"
    by (cases "assignStates cs (Suc i) states k (m(label c \<mapsto> sv)) g1") auto
  have v: "vectors = sv # rest" using Cons.prems(1) n r by simp
  have sv: "length sv = k \<and> getCurrentState sv = states ! i"
    using newStateValues_sum [OF Cons.prems(2), of "states ! i" g] n by simp
  have ih: "length rest = length cs
         \<and> (\<forall>j < length cs. length (rest ! j) = k \<and> getCurrentState (rest ! j) = states ! (Suc i + j))"
    using Cons.IH [OF r Cons.prems(2)] .
  show ?case
  proof (intro conjI allI impI)
    show "length vectors = length (c # cs)" using v ih by simp
  next
    fix j assume "j < length (c # cs)"
    then show "length (vectors ! j) = k" using v sv ih by (cases j) auto
  next
    fix j assume "j < length (c # cs)"
    then show "getCurrentState (vectors ! j) = states ! (i + j)" using v sv ih by (cases j) auto
  qed
qed


lemma assignStates_map:
  assumes "assignStates cs i states k m g = ((vectors, m'), g')" and "distinct (map label cs)"
  shows "(\<forall>j < length cs. m' (label (cs ! j)) = Some (vectors ! j))
         \<and> (\<forall>l. l \<notin> label ` set cs \<longrightarrow> m' l = m l)"
  using assms
proof (induction cs arbitrary: i m g vectors m' g')
  case Nil
  then show ?case by simp
next
  case (Cons c cs)
  obtain sv g1 where n: "newStateValues k (states ! i) g = (sv, g1)"
    by (cases "newStateValues k (states ! i) g")
  obtain rest m2 g2 where r: "assignStates cs (Suc i) states k (m(label c \<mapsto> sv)) g1 = ((rest, m2), g2)"
    by (cases "assignStates cs (Suc i) states k (m(label c \<mapsto> sv)) g1") auto
  have v: "vectors = sv # rest" "m' = m2" using Cons.prems(1) n r by simp_all
  have d: "distinct (map label cs)" "label c \<notin> label ` set cs" using Cons.prems(2) by auto
  have ih: "(\<forall>j < length cs. m2 (label (cs ! j)) = Some (rest ! j))
         \<and> (\<forall>l. l \<notin> label ` set cs \<longrightarrow> m2 l = (m(label c \<mapsto> sv)) l)"
    using Cons.IH [OF r d(1)] .
  show ?case
  proof (intro conjI allI impI)
    fix j assume "j < length (c # cs)"
    then show "m' (label ((c # cs) ! j)) = Some (vectors ! j)"
      using v ih d(2) by (cases j) auto
  next
    fix l assume "l \<notin> label ` set (c # cs)"
    then show "m' l = m l" using v ih by auto
  qed
qed

lemma eval_sum_of_identifiers:
  assumes "eval e env = Some (NumV a, env)" and "map env xs = map (Some \<circ> NumV) vs"
  shows "eval (foldl (\<lambda>e x. BinaryExpression ''+'' e (Identifier x)) e xs) env
         = Some (NumV (a + sum_list vs), env)"
  using assms
proof (induction xs arbitrary: e a vs)
  case Nil
  then show ?case by simp
next
  case (Cons x xs)
  obtain v vs' where vs: "vs = v # vs'" using Cons.prems(2) by (cases vs) auto
  have x: "env x = Some (NumV v)" and rest: "map env xs = map (Some \<circ> NumV) vs'"
    using Cons.prems(2) vs by simp_all
  have step: "eval (BinaryExpression ''+'' e (Identifier x)) env = Some (NumV (a + v), env)"
    using Cons.prems(1) x by (simp add: BinaryExpression_def Identifier_def binop_def)
  show ?case using Cons.IH [OF step rest] vs by (simp add: add.assoc)
qed








lemma discriminant_eval:
  assumes "vars \<noteq> []"
  shows "\<exists>d. discriminant vars = Some d
           \<and> (\<forall>env ws. map env vars = map (Some \<circ> NumV) ws
                 \<longrightarrow> eval d env = Some (NumV (sum_list ws), env))"
proof -
  obtain v vs where vvs: "vars = v # vs" using assms by (cases vars) auto
  show ?thesis
  proof (intro exI conjI allI impI)
    show "discriminant vars
          = Some (foldl (\<lambda>e x. BinaryExpression ''+'' e (Identifier x)) (Identifier v) vs)"
      by (simp add: discriminant_def vvs)
  next
    fix env ws assume a: "map env vars = map (Some \<circ> NumV) ws"
    then obtain w ws' where ws: "ws = w # ws'" using vvs by (cases ws) auto
    have hd: "eval (Identifier v) env = Some (NumV w, env)"
      using a vvs ws by (simp add: Identifier_def)
    have tl: "map env vs = map (Some \<circ> NumV) ws'" using a vvs ws by simp
    show "eval (foldl (\<lambda>e x. BinaryExpression ''+'' e (Identifier x)) (Identifier v) vs) env
          = Some (NumV (sum_list ws), env)"
      using eval_sum_of_identifiers [OF hd tl] ws by simp
  qed
qed


section \<open>Claims about control flow flattening\<close>

text \<open>
  C9: the fraction that decides where a chunk ends is the minimum of \<open>0.1\<close> and the
  length-dependent base value, so it never exceeds \<open>0.1\<close>; it is exactly \<open>0.1\<close> for a
  body of at most 27 statements and strictly smaller for every longer body.
\<close>

theorem chunkFraction_clamped:
  "chunkFraction n = min (1 / 10) (baseFraction n) \<and> chunkFraction n \<le> 1 / 10
   \<and> (n \<le> 27 \<longrightarrow> chunkFraction n = 1 / 10) \<and> (27 < n \<longrightarrow> chunkFraction n < 1 / 10)"
proof -
  have small: "n \<le> 27 \<Longrightarrow> 1 / 10 \<le> baseFraction n"
  proof -
    assume le: "n \<le> 27"
    show ?thesis
    proof (cases "n > 20")
      case False
      then show ?thesis by (simp add: baseFraction_def)
    next
      case True
      then have "rat_of_nat n - 18 \<le> 9" using le by simp
      then have m: "max (6 / 5) (rat_of_nat n - 18) \<le> 9" by simp
      have pos: "0 < max (6 / 5) (rat_of_nat n - 18)" by (simp add: less_max_iff_disj)
      have "(9 / 10) / 9 \<le> (9 / 10) / max (6 / 5) (rat_of_nat n - 18)"
        using m pos by (intro divide_left_mono) simp_all
      then show ?thesis using True by (simp add: baseFraction_def)
    qed
  qed
  have large: "27 < n \<Longrightarrow> baseFraction n < 1 / 10"
  proof -
    assume gt: "27 < n"
    then have "rat_of_nat n \<ge> 28" by simp
    then have "9 < rat_of_nat n - 18" by simp
    then have m: "9 < max (6 / 5) (rat_of_nat n - 18)" by (simp add: less_max_iff_disj)
    then have "(9 / 10) / max (6 / 5) (rat_of_nat n - 18) < (9 / 10) / 9"
      by (intro divide_strict_left_mono) simp_all
    then show ?thesis using gt by (simp add: baseFraction_def)
  qed
  show ?thesis using small large by (auto simp: chunkFraction_def min_def)
qed

theorem chunkFraction_clamped_witness:
  "chunkFraction 27 = 1 / 10 \<and> chunkFraction 28 = 9 / 100 \<and> chunkFraction 28 < 1 / 10
   \<and> chunkFraction 3 = 1 / 10"
  using chunkFraction_clamped [of 27] chunkFraction_clamped [of 28]
  by (simp add: chunkFraction_def baseFraction_def)

text \<open>
  C1: when the state encoding of a block with \<open>N\<close> chunks has been drawn, the \<open>N\<close> state
  totals are pairwise distinct integers of \<open>[1, 15N]\<close>; the number \<open>k\<close> of state variables
  satisfies \<open>2 \<le> k < 5\<close>; every chunk has a vector of \<open>k\<close> state values whose sum, after
  one randomly chosen component has been overwritten, is exactly the chunk's state total;
  and the discriminant of the switch evaluates to the sum of the \<open>k\<close> state variables.
  Where the chunk labels are pairwise distinct, the vector recorded under a chunk's label
  is that chunk's vector.
\<close>

theorem stateEncoding_holds:
  assumes "stateEncoding chunks g = Some (e, g')"
  shows "length (caseStates e) = length chunks
         \<and> distinct (caseStates e)
         \<and> (\<forall>s \<in> set (caseStates e). 1 \<le> s \<and> s \<le> 15 * int (length chunks))
         \<and> 2 \<le> length (stateVars e) \<and> length (stateVars e) < 5
         \<and> length (chunkStates e) = length chunks
         \<and> (\<forall>i < length chunks.
               length (chunkStates e ! i) = length (stateVars e)
               \<and> getCurrentState (chunkStates e ! i) = caseStates e ! i)
         \<and> (distinct (map label chunks) \<longrightarrow>
               (\<forall>i < length chunks. labelToStates e (label (chunks ! i)) = Some (chunkStates e ! i)))
         \<and> (\<exists>d. discriminant (stateVars e) = Some d
               \<and> (\<forall>env vs. map env (stateVars e) = map (Some \<circ> NumV) vs
                     \<longrightarrow> eval d env = Some (NumV (sum_list vs), env)))"
proof -
  obtain states g1 where ds: "drawStates [] (length chunks) g = Some (states, g1)"
    using assms by (auto simp: stateEncoding_def split: option.splits)
  obtain k g2 where k: "getRandomInteger 2 5 g1 = (k, g2)"
    by (cases "getRandomInteger 2 5 g1")
  obtain vars g3 where vars: "arrayFillMap (nat k) getPlaceholder g2 = (vars, g3)"
    by (cases "arrayFillMap (nat k) getPlaceholder g2")
  obtain lbl g4 where lbl: "getPlaceholder g3 = (lbl, g4)"
    by (cases "getPlaceholder g3")
  obtain vectors m g5 where as: "assignStates chunks 0 states (length vars) Map.empty g4 = ((vectors, m), g5)"
    by (cases "assignStates chunks 0 states (length vars) Map.empty g4") auto
  have e: "e = \<lparr>caseStates = states, stateVars = vars, switchLabel = lbl,
                chunkStates = vectors, labelToStates = m\<rparr>"
    using assms by (simp add: stateEncoding_def ds k vars lbl as)
  have krange: "2 \<le> k \<and> k < 5" using getRandomInteger_range [of 2 5 g1] k by simp
  have klen: "length vars = nat k" using arrayFillMap_length [OF vars] .
  then have kpos: "0 < length vars" and kbounds: "2 \<le> length vars \<and> length vars < 5"
    using krange by auto
  have totals: "length states = length chunks \<and> distinct states
                \<and> (\<forall>s \<in> set states. 1 \<le> s \<and> s \<le> 15 * int (length chunks))"
    using drawStates_sound [OF ds] by simp
  have sums: "length vectors = length chunks
         \<and> (\<forall>j < length chunks. length (vectors ! j) = length vars
                \<and> getCurrentState (vectors ! j) = states ! (0 + j))"
    using assignStates_sums [OF as kpos] .
  have stored: "distinct (map label chunks)
         \<Longrightarrow> \<forall>j < length chunks. m (label (chunks ! j)) = Some (vectors ! j)"
    using assignStates_map [OF as] by blast
  have disc: "\<exists>d. discriminant vars = Some d
               \<and> (\<forall>env ws. map env vars = map (Some \<circ> NumV) ws
                     \<longrightarrow> eval d env = Some (NumV (sum_list ws), env))"
    using discriminant_eval [of vars] kpos by auto
  show ?thesis
    unfolding e using totals kbounds sums stored disc by simp
qed

lemma exampleDraws_states: "\<exists>r. drawStates [] 3 exampleDraws = Some r"
  apply (subst drawStates.simps)
  apply (simp add: getRandomInteger_draw exampleDraws_def)
  apply (subst drawStates.simps)
  apply (simp add: getRandomInteger_draw exampleDraws_def)
  apply (subst drawStates.simps)
  apply (simp add: getRandomInteger_draw exampleDraws_def)
  done

theorem stateEncoding_holds_witness:
  "\<exists>e g'. stateEncoding exampleChunks exampleDraws = Some (e, g')
     \<and> length (caseStates e) = 3 \<and> distinct (caseStates e)
     \<and> (\<forall>s \<in> set (caseStates e). 1 \<le> s \<and> s \<le> 45)
     \<and> 2 \<le> length (stateVars e) \<and> length (stateVars e) < 5
     \<and> (\<forall>i < 3. getCurrentState (chunkStates e ! i) = caseStates e ! i)
     \<and> (\<forall>i < 3. labelToStates e (label (exampleChunks ! i)) = Some (chunkStates e ! i))"
proof -
  have len: "length exampleChunks = 3" by (simp add: exampleChunks_def)
  have dist: "distinct (map label exampleChunks)" by (simp add: exampleChunks_def)
  obtain r where "drawStates [] (length exampleChunks) exampleDraws = Some r"
    using exampleDraws_states len by auto
  then have "\<exists>e g'. stateEncoding exampleChunks exampleDraws = Some (e, g')"
    by (cases r) (simp add: stateEncoding_def split: prod.splits)
  then obtain e g' where ex: "stateEncoding exampleChunks exampleDraws = Some (e, g')"
    by blast
  show ?thesis
    using stateEncoding_holds [OF ex] ex len dist by auto
qed




section \<open>RGF: the name-resolution loop\<close>

text \<open>
  Lines 194 to 246 of \<^verbatim>\<open>rgf.ts\<close>. A candidate is a function node (its identity is
  \<open>location\<close>, its type \<open>kind\<close>, the identity of its \<^verbatim>\<open>id\<close> node \<open>idNode\<close>), the set of
  names it refers to and its own name, if it has one. One pass
  visits the candidates in order; a candidate whose set is empty and whose name is a
  non-empty string has its name deleted from the non-empty set of every other candidate.
  The sets are mutated in place, so a later candidate of the same pass sees the deletions
  of an earlier one.
\<close>

record candidate =
  location :: nat
  kind :: string
  idNode :: nat
  references :: "string fset"
  name :: "string option"

definition truthyName :: "string option \<Rightarrow> bool" where
  "truthyName n = (case n of None \<Rightarrow> False | Some s \<Rightarrow> s \<noteq> [])"

definition erases :: "candidate \<Rightarrow> string \<Rightarrow> candidate \<Rightarrow> bool" where
  "erases c n o' = (location o' \<noteq> location c \<and> references o' \<noteq> {||} \<and> n |\<in>| references o')"

definition eraseName :: "candidate \<Rightarrow> string \<Rightarrow> candidate list \<Rightarrow> candidate list \<times> bool" where
  "eraseName c n collect =
     (map (\<lambda>o'. if erases c n o' then o'\<lparr>references := references o' |-| {|n|}\<rparr> else o') collect,
      list_ex (erases c n) collect)"

fun passFrom :: "nat \<Rightarrow> nat \<Rightarrow> candidate list \<Rightarrow> bool \<Rightarrow> candidate list \<times> bool" where
  "passFrom i 0 collect hit = (collect, hit)"
| "passFrom i (Suc k) collect hit =
     (let c = collect ! i
      in if references c = {||} \<and> truthyName (name c) then
           (case eraseName c (the (name c)) collect of
              (collect', h) \<Rightarrow> passFrom (Suc i) k collect' (hit \<or> h))
         else passFrom (Suc i) k collect hit)"

definition rgfPass :: "candidate list \<Rightarrow> candidate list \<times> bool" where
  "rgfPass collect = passFrom 0 (length collect) collect False"

text \<open>
  The loop of lines 197 to 226: the counter of passes without a deletion is reset by
  every deletion, and the loop ends when it exceeds \<open>start\<close>.
\<close>

partial_function (option) resolveLoop :: "candidate list \<Rightarrow> nat \<Rightarrow> nat \<Rightarrow> candidate list option" where
  "resolveLoop collect miss start =
     (if (if snd (rgfPass collect) then 0 else miss + 1) > start
      then Some (fst (rgfPass collect))
      else resolveLoop (fst (rgfPass collect)) (if snd (rgfPass collect) then 0 else miss + 1) start)"

definition resolveNames :: "candidate list \<Rightarrow> candidate list option" where
  "resolveNames collect = resolveLoop collect 0 (length collect * 2)"

definition extractionQueue :: "candidate list \<Rightarrow> nat list" where
  "extractionQueue collect = map location (filter (\<lambda>o'. references o' = {||}) collect)"

text \<open>The number of names still recorded in the reference sets.\<close>

definition weight :: "candidate list \<Rightarrow> nat" where
  "weight collect = sum_list (map (\<lambda>o'. fcard (references o')) collect)"

definition exampleCollect :: "candidate list" where
  "exampleCollect =
     [\<lparr>location = 10, kind = ''FunctionDeclaration'', idNode = 11, references = {||}, name = Some ''f''\<rparr>,
      \<lparr>location = 20, kind = ''FunctionDeclaration'', idNode = 21, references = {|''f''|}, name = Some ''g''\<rparr>,
      \<lparr>location = 30, kind = ''FunctionDeclaration'', idNode = 31, references = {|''x''|}, name = None\<rparr>]"

lemma eraseName_effect:
  assumes "eraseName c n collect = (collect', h)"
  shows "length collect' = length collect \<and> (h \<longrightarrow> weight collect' < weight collect)
         \<and> (\<not> h \<longrightarrow> collect' = collect)"
proof -
  let ?f = "\<lambda>o'. if erases c n o' then o'\<lparr>references := references o' |-| {|n|}\<rparr> else o'"
  have c': "collect' = map ?f collect" and h: "h = list_ex (erases c n) collect"
    using assms by (simp_all add: eraseName_def)
  have le: "weight (map ?f xs) \<le> weight xs" for xs
    by (induction xs) (auto simp: weight_def fcard_fminus1_le intro: add_mono)
  have lt: "list_ex (erases c n) xs \<Longrightarrow> weight (map ?f xs) < weight xs" for xs
  proof (induction xs)
    case Nil
    then show ?case by simp
  next
    case (Cons x xs)
    show ?case
    proof (cases "erases c n x")
      case True
      then have "n |\<in>| references x" by (simp add: erases_def)
      then have "fcard (references x |-| {|n|}) < fcard (references x)"
        by (rule fcard_fminus1_less)
      then show ?thesis using True le [of xs] by (simp add: weight_def)
    next
      case False
      then show ?thesis using Cons by (simp add: weight_def)
    qed
  qed
  have same: "\<not> list_ex (erases c n) xs \<Longrightarrow> map ?f xs = xs" for xs
    by (induction xs) auto
  show ?thesis using c' h lt [of collect] same [of collect] by simp
qed

lemma passFrom_effect:
  assumes "passFrom i k collect hit = (collect', hit')"
  shows "length collect' = length collect \<and> weight collect' \<le> weight collect
         \<and> (hit \<longrightarrow> hit')
         \<and> (hit' \<and> \<not> hit \<longrightarrow> weight collect' < weight collect)
         \<and> (\<not> hit' \<longrightarrow> collect' = collect)"
  using assms
proof (induction k arbitrary: i collect hit)
  case 0
  then show ?case by simp
next
  case (Suc k)
  let ?c = "collect ! i"
  show ?case
  proof (cases "references ?c = {||} \<and> truthyName (name ?c)")
    case True
    obtain c1 h where e: "eraseName ?c (the (name ?c)) collect = (c1, h)"
      by (cases "eraseName ?c (the (name ?c)) collect")
    have "passFrom i (Suc k) collect hit = passFrom (Suc i) k c1 (hit \<or> h)"
      by (simp only: passFrom.simps Let_def if_P [OF True] e prod.case)
    then have p: "passFrom (Suc i) k c1 (hit \<or> h) = (collect', hit')"
      using Suc.prems by simp
    show ?thesis
      using Suc.IH [OF p] eraseName_effect [OF e] by auto
  next
    case False
    have "passFrom i (Suc k) collect hit = passFrom (Suc i) k collect hit"
      by (simp only: passFrom.simps Let_def if_not_P [OF False])
    then have p: "passFrom (Suc i) k collect hit = (collect', hit')"
      using Suc.prems by simp
    show ?thesis using Suc.IH [OF p] by simp
  qed
qed

lemma rgfPass_effect:
  assumes "rgfPass collect = (collect', hit)"
  shows "length collect' = length collect
         \<and> (hit \<longrightarrow> weight collect' < weight collect) \<and> (\<not> hit \<longrightarrow> collect' = collect)"
  using passFrom_effect [of 0 "length collect" collect False collect' hit] assms
  by (simp add: rgfPass_def)

lemma resolveLoop_returns: "\<exists>r. resolveLoop collect miss start = Some r"
proof (induction w \<equiv> "weight collect" arbitrary: collect miss rule: less_induct)
  case less
  obtain c1 hit where p: "rgfPass collect = (c1, hit)" by (cases "rgfPass collect")
  note eff = rgfPass_effect [OF p]
  have onhit: "\<exists>r. resolveLoop collect miss start = Some r" if hit for miss
  proof (cases "0 > start")
    case True
    then show ?thesis by simp
  next
    case False
    have "weight c1 < weight collect" using eff that by simp
    then obtain r where "resolveLoop c1 0 start = Some r" using less.hyps [of c1 0] by blast
    then show ?thesis using that False p by (subst resolveLoop.simps) simp
  qed
  show ?case
  proof (cases hit)
    case True
    then show ?thesis using onhit by simp
  next
    case False
    then have same: "c1 = collect" using eff by simp
    show ?thesis
    proof (induction k \<equiv> "Suc start - miss" arbitrary: miss)
      case 0
      then have "miss + 1 > start" by simp
      then show ?case using False p by (subst resolveLoop.simps) simp
    next
      case (Suc k)
      show ?case
      proof (cases "miss + 1 > start")
        case True
        then show ?thesis using False p by (subst resolveLoop.simps) simp
      next
        case le: False
        have "k = Suc start - (miss + 1)" using Suc.hyps(2) by simp
        then obtain r where "resolveLoop collect (miss + 1) start = Some r"
          using Suc.hyps(1) by blast
        then show ?thesis using False p le same by (subst resolveLoop.simps) simp
      qed
    qed
  qed
qed

lemma resolveLoop_fixed:
  assumes "resolveLoop collect miss start = Some r"
  shows "rgfPass r = (r, False) \<and> length r = length collect"
proof (rule resolveLoop.raw_induct
    [where P = "\<lambda>collect miss start r. rgfPass r = (r, False) \<and> length r = length collect",
     OF _ assms], goal_cases)
  case (1 resolveLoop' collect miss start r)
  obtain c1 hit where p: "rgfPass collect = (c1, hit)" by (cases "rgfPass collect")
  note eff = rgfPass_effect [OF p]
  show ?case
  proof (cases "(if hit then 0 else miss + 1) > start")
    case True
    then have nh: "\<not> hit" by (auto split: if_splits)
    then have "c1 = collect" using eff by simp
    moreover have "r = c1" using 1(2) True p by simp
    ultimately show ?thesis using p nh by simp
  next
    case False
    then have "resolveLoop' c1 (if hit then 0 else miss + 1) start = Some r"
      using 1(2) p by simp
    then show ?thesis using 1(1) eff by fastforce
  qed
qed


text \<open>
  C6: the name-resolution loop returns for every list of candidates; when it does, one
  more pass would delete nothing (the result is a fixed point of the pass), the list has
  its candidates in place, and the extraction queue holds exactly the candidates whose
  reference set is empty.
\<close>

theorem rgf_resolution_terminates:
  "\<exists>r. resolveNames collect = Some r
       \<and> length r = length collect
       \<and> rgfPass r = (r, False)
       \<and> extractionQueue r = map location (filter (\<lambda>o'. references o' = {||}) r)"
proof -
  obtain r where r: "resolveLoop collect 0 (length collect * 2) = Some r"
    using resolveLoop_returns by blast
  show ?thesis
    using r resolveLoop_fixed [OF r] by (simp add: resolveNames_def extractionQueue_def)
qed

lemma exampleCollect_pass1:
  "rgfPass exampleCollect =
     ([\<lparr>location = 10, kind = ''FunctionDeclaration'', idNode = 11, references = {||}, name = Some ''f''\<rparr>,
       \<lparr>location = 20, kind = ''FunctionDeclaration'', idNode = 21, references = {||}, name = Some ''g''\<rparr>,
       \<lparr>location = 30, kind = ''FunctionDeclaration'', idNode = 31, references = {|''x''|}, name = None\<rparr>], True)"
  by (simp add: rgfPass_def exampleCollect_def eraseName_def erases_def truthyName_def
      numeral_3_eq_3)

lemma exampleCollect_pass2:
  "rgfPass [\<lparr>location = 10, kind = ''FunctionDeclaration'', idNode = 11, references = {||}, name = Some ''f''\<rparr>,
       \<lparr>location = 20, kind = ''FunctionDeclaration'', idNode = 21, references = {||}, name = Some ''g''\<rparr>,
       \<lparr>location = 30, kind = ''FunctionDeclaration'', idNode = 31, references = {|''x''|}, name = None\<rparr>]
   = ([\<lparr>location = 10, kind = ''FunctionDeclaration'', idNode = 11, references = {||}, name = Some ''f''\<rparr>,
       \<lparr>location = 20, kind = ''FunctionDeclaration'', idNode = 21, references = {||}, name = Some ''g''\<rparr>,
       \<lparr>location = 30, kind = ''FunctionDeclaration'', idNode = 31, references = {|''x''|}, name = None\<rparr>], False)"
  by (simp add: rgfPass_def eraseName_def erases_def truthyName_def numeral_3_eq_3)

theorem rgf_resolution_terminates_witness:
  "\<exists>r. resolveNames exampleCollect = Some r \<and> rgfPass r = (r, False)
       \<and> extractionQueue r = [10, 20]"
proof -
  have "resolveNames exampleCollect
        = Some [\<lparr>location = 10, kind = ''FunctionDeclaration'', idNode = 11, references = {||}, name = Some ''f''\<rparr>,
                \<lparr>location = 20, kind = ''FunctionDeclaration'', idNode = 21, references = {||}, name = Some ''g''\<rparr>,
                \<lparr>location = 30, kind = ''FunctionDeclaration'', idNode = 31, references = {|''x''|}, name = None\<rparr>]"
    unfolding resolveNames_def
    apply (subst resolveLoop.simps, simp add: exampleCollect_pass1)
    apply (simp add: exampleCollect_def)
    apply (subst resolveLoop.simps, simp add: exampleCollect_pass2)
    apply (subst resolveLoop.simps, simp add: exampleCollect_pass2)
    apply (subst resolveLoop.simps, simp add: exampleCollect_pass2)
    apply (subst resolveLoop.simps, simp add: exampleCollect_pass2)
    apply (subst resolveLoop.simps, simp add: exampleCollect_pass2)
    apply (subst resolveLoop.simps, simp add: exampleCollect_pass2)
    apply (subst resolveLoop.simps, simp add: exampleCollect_pass2)
    done
  then show ?thesis
    using rgf_resolution_terminates [of exampleCollect]
    by (auto simp: extractionQueue_def)
qed


section \<open>RGF: routing references through the reference array\<close>

text \<open>
  Lines 228 to 246 of \<^verbatim>\<open>rgf.ts\<close> queue every candidate whose reference set is empty
  and record, for a function declaration among them, its index (the size of the
  \<^verbatim>\<open>names\<close> map at that moment) and its \<^verbatim>\<open>id\<close> node. A JavaScript \<^verbatim>\<open>Map\<close> is a
  list of entries in insertion order in which setting an existing key replaces its value.
  Lines 255 to 321 then decide for one identifier occurrence whether it is replaced and
  by what; the signatures of \<^verbatim>\<open>referenceSignatures\<close> are random strings, an input here.
\<close>

definition mapSet :: "'k \<Rightarrow> 'v \<Rightarrow> ('k \<times> 'v) list \<Rightarrow> ('k \<times> 'v) list" where
  "mapSet k v m =
     (if k \<in> fst ` set m then map (\<lambda>(k', v'). if k' = k then (k, v) else (k', v')) m
      else m @ [(k, v)])"

record registry =
  queue :: "nat list"
  names :: "(string \<times> nat) list"
  definingNodes :: "(string \<times> nat) list"

fun registerNames :: "candidate list \<Rightarrow> registry \<Rightarrow> registry" where
  "registerNames [] r = r"
| "registerNames (c # cs) r =
     (if references c = {||} then
        (let r1 = r\<lparr>queue := queue r @ [location c]\<rparr>
         in case (kind c = ''FunctionDeclaration'', name c) of
              (True, Some n) \<Rightarrow>
                registerNames cs
                  (r1\<lparr>names := mapSet n (length (names r1)) (names r1),
                      definingNodes := mapSet n (idNode c) (definingNodes r1)\<rparr>)
            | _ \<Rightarrow> registerNames cs r1)
      else registerNames cs r)"

definition typeofCheck :: "string \<Rightarrow> nat \<Rightarrow> string \<Rightarrow> node" where
  "typeofCheck referenceArray index signature =
     LogicalExpression ''&&''
       (BinaryExpression ''===''
          (UnaryExpression ''typeof''
             (MemberExpression (Identifier referenceArray) (Literal (NumLit (int index))) True))
          (Literal (StrLit ''function'')))
       (MemberExpression
          (MemberExpression (Identifier referenceArray) (Literal (NumLit (int index))) True)
          (Literal (StrLit signature)) True)"

definition rgfReplace ::
  "string set \<Rightarrow> registry \<Rightarrow> (nat \<rightharpoonup> string) \<Rightarrow> string \<Rightarrow> occurrence \<Rightarrow> nat option
     \<Rightarrow> node option" where
  "rgfReplace reservedIdentifiers r referenceSignatures referenceArray occ definingIdentifier =
     (let o' = occNode occ in
      if ntype o' = ''Identifier'' \<and> nodeName o' \<notin> reservedIdentifiers then
        (case map_of (names r) (nodeName o') of
           None \<Rightarrow> None
         | Some index \<Rightarrow>
             if isReferenced (info occ) \<and> \<not> isDefined (info occ) then
               (case definingIdentifier of
                  None \<Rightarrow> None
                | Some pointingTo \<Rightarrow>
                    if Some pointingTo = map_of (definingNodes r) (nodeName o') then
                      (let memberExpression =
                             MemberExpression (Identifier referenceArray)
                               (Literal (NumLit (int index))) True
                       in if (case parent occ of
                                None \<Rightarrow> False
                              | Some p0 \<Rightarrow> ntype p0 = ''AssignmentExpression'' \<and> isParentLeft occ)
                          then Some memberExpression
                          else Some (ConditionalExpression
                                 (typeofCheck referenceArray index
                                    (case referenceSignatures index of
                                       None \<Rightarrow> ''_''
                                     | Some s \<Rightarrow> if s = [] then ''_'' else s))
                                 (FunctionExpression []
                                    [ReturnStatement (Some
                                       (CallExpression memberExpression
                                          [Identifier referenceArray,
                                           SpreadElement (Identifier ''arguments'')]))])
                                 memberExpression))
                    else None)
             else None)
      else None)"

lemma mapSet_map_of:
  "map_of (mapSet k v m) k' = (if k' = k then Some v else map_of m k')"
proof (cases "k \<in> fst ` set m")
  case True
  have "map_of (map (\<lambda>(a, b). if a = k then (k, v) else (a, b)) m) k'
        = (if k' = k then map_option (\<lambda>_. v) (map_of m k) else map_of m k')"
    by (induction m) auto
  moreover have "map_of m k \<noteq> None" using True by (simp add: map_of_eq_None_iff)
  ultimately show ?thesis using True by (auto simp: mapSet_def)
next
  case False
  then have "map_of m k = None" by (simp add: map_of_eq_None_iff)
  then show ?thesis using False by (auto simp: mapSet_def map_add_def split: option.splits)
qed

lemma registerNames_definingNodes:
  assumes "map_of (definingNodes (registerNames cs r)) n = Some d"
  shows "map_of (definingNodes r) n = Some d
         \<or> (\<exists>c \<in> set cs. references c = {||} \<and> kind c = ''FunctionDeclaration''
                \<and> name c = Some n \<and> idNode c = d)"
  using assms
proof (induction cs arbitrary: r)
  case Nil
  then show ?case by simp
next
  case (Cons c cs)
  show ?case
  proof (cases "references c = {||} \<and> kind c = ''FunctionDeclaration'' \<and> name c \<noteq> None")
    case True
    then obtain m where m: "name c = Some m" by auto
    let ?r1 = "r\<lparr>queue := queue r @ [location c]\<rparr>"
    let ?r2 = "?r1\<lparr>names := mapSet m (length (names ?r1)) (names ?r1),
                   definingNodes := mapSet m (idNode c) (definingNodes ?r1)\<rparr>"
    have "registerNames (c # cs) r = registerNames cs ?r2" using True m by (simp add: Let_def)
    then have "map_of (definingNodes ?r2) n = Some d
         \<or> (\<exists>c \<in> set cs. references c = {||} \<and> kind c = ''FunctionDeclaration''
                \<and> name c = Some n \<and> idNode c = d)"
      using Cons.IH [of ?r2] Cons.prems by simp
    then show ?thesis using True m by (auto simp: mapSet_map_of split: if_splits)
  next
    case False
    then have "definingNodes (registerNames (c # cs) r) = definingNodes (registerNames cs r)
               \<or> definingNodes (registerNames (c # cs) r)
                  = definingNodes (registerNames cs (r\<lparr>queue := queue r @ [location c]\<rparr>))"
      by (auto simp: Let_def split: option.splits bool.splits)
    then show ?thesis using Cons.IH [of r] Cons.IH [of "r\<lparr>queue := queue r @ [location c]\<rparr>"] Cons.prems
      by auto
  qed
qed


text \<open>
  C10: an identifier occurrence is replaced by an access to the reference array (plain
  when it is the left side of an assignment, wrapped in the \<^verbatim>\<open>typeof\<close> conditional
  otherwise) exactly when it is a non-reserved identifier with an index in \<^verbatim>\<open>names\<close>
  that is referenced, is not a definition, and whose defining identifier, as name
  resolution reports it, is the node recorded in \<^verbatim>\<open>definingNodes\<close>; that node is the
  \<^verbatim>\<open>id\<close> of a queued function declaration of the same name. An occurrence that is a
  definition, is not a reference, has no defining identifier or is bound to another
  declaration is left unchanged.
\<close>

theorem rgf_rewrites_only_bound_occurrences:
  "(rgfReplace reservedIdentifiers r referenceSignatures referenceArray occ definingIdentifier \<noteq> None)
     = (ntype (occNode occ) = ''Identifier'' \<and> nodeName (occNode occ) \<notin> reservedIdentifiers
        \<and> map_of (names r) (nodeName (occNode occ)) \<noteq> None
        \<and> isReferenced (info occ) \<and> \<not> isDefined (info occ)
        \<and> definingIdentifier \<noteq> None
        \<and> definingIdentifier = map_of (definingNodes r) (nodeName (occNode occ)))
   \<and> (\<forall>replacement.
         rgfReplace reservedIdentifiers r referenceSignatures referenceArray occ definingIdentifier
           = Some replacement \<longrightarrow>
         (\<exists>index. map_of (names r) (nodeName (occNode occ)) = Some index
            \<and> (replacement = MemberExpression (Identifier referenceArray) (Literal (NumLit (int index))) True
                 \<or> (\<exists>signature. replacement =
                       ConditionalExpression (typeofCheck referenceArray index signature)
                         (FunctionExpression []
                            [ReturnStatement (Some
                               (CallExpression
                                  (MemberExpression (Identifier referenceArray)
                                     (Literal (NumLit (int index))) True)
                                  [Identifier referenceArray,
                                   SpreadElement (Identifier ''arguments'')]))])
                         (MemberExpression (Identifier referenceArray)
                            (Literal (NumLit (int index))) True)))))
   \<and> (\<forall>d. r = registerNames collect \<lparr>queue = [], names = [], definingNodes = []\<rparr>
          \<and> rgfReplace reservedIdentifiers r referenceSignatures referenceArray occ definingIdentifier \<noteq> None
          \<and> definingIdentifier = Some d \<longrightarrow>
          (\<exists>c \<in> set collect. references c = {||} \<and> kind c = ''FunctionDeclaration''
              \<and> name c = Some (nodeName (occNode occ)) \<and> idNode c = d))"
proof (intro conjI allI impI)
  show "(rgfReplace reservedIdentifiers r referenceSignatures referenceArray occ definingIdentifier \<noteq> None)
     = (ntype (occNode occ) = ''Identifier'' \<and> nodeName (occNode occ) \<notin> reservedIdentifiers
        \<and> map_of (names r) (nodeName (occNode occ)) \<noteq> None
        \<and> isReferenced (info occ) \<and> \<not> isDefined (info occ)
        \<and> definingIdentifier \<noteq> None
        \<and> definingIdentifier = map_of (definingNodes r) (nodeName (occNode occ)))"
    by (auto simp: rgfReplace_def Let_def split: option.splits)
next
  fix replacement
  assume "rgfReplace reservedIdentifiers r referenceSignatures referenceArray occ definingIdentifier
           = Some replacement"
  then show "\<exists>index. map_of (names r) (nodeName (occNode occ)) = Some index
            \<and> (replacement = MemberExpression (Identifier referenceArray) (Literal (NumLit (int index))) True
                 \<or> (\<exists>signature. replacement =
                       ConditionalExpression (typeofCheck referenceArray index signature)
                         (FunctionExpression []
                            [ReturnStatement (Some
                               (CallExpression
                                  (MemberExpression (Identifier referenceArray)
                                     (Literal (NumLit (int index))) True)
                                  [Identifier referenceArray,
                                   SpreadElement (Identifier ''arguments'')]))])
                         (MemberExpression (Identifier referenceArray)
                            (Literal (NumLit (int index))) True)))"
    by (auto simp: rgfReplace_def Let_def split: option.splits if_splits)
next
  fix d
  assume a: "r = registerNames collect \<lparr>queue = [], names = [], definingNodes = []\<rparr>
          \<and> rgfReplace reservedIdentifiers r referenceSignatures referenceArray occ definingIdentifier \<noteq> None
          \<and> definingIdentifier = Some d"
  then have "map_of (definingNodes r) (nodeName (occNode occ)) = Some d"
    by (auto simp: rgfReplace_def Let_def split: option.splits if_splits)
  then show "\<exists>c \<in> set collect. references c = {||} \<and> kind c = ''FunctionDeclaration''
              \<and> name c = Some (nodeName (occNode occ)) \<and> idNode c = d"
    using a registerNames_definingNodes
      [of collect "\<lparr>queue = [], names = [], definingNodes = []\<rparr>" "nodeName (occNode occ)" d]
    by simp
qed


definition exampleOccurrence :: occurrence where
  "exampleOccurrence =
     \<lparr>occNode = Identifier ''f'',
      parent = Some (CallExpression (Identifier ''f'') []),
      isParentLeft = False, isParentCallee = True,
      info = \<lparr>isReferenced = True, isDefined = False, isModified = False,
               isFunctionDeclaration = False, isFunctionCall = True\<rparr>\<rparr>"

lemma exampleCollect_registry:
  "registerNames exampleCollect \<lparr>queue = [], names = [], definingNodes = []\<rparr>
     = \<lparr>queue = [10], names = [(''f'', 0)], definingNodes = [(''f'', 11)]\<rparr>"
  by (simp add: exampleCollect_def mapSet_def)

theorem rgf_rewrites_only_bound_occurrences_witness:
  "rgfReplace {} (registerNames exampleCollect \<lparr>queue = [], names = [], definingNodes = []\<rparr>)
       Map.empty ''_R'' exampleOccurrence (Some 11) \<noteq> None
   \<and> (\<exists>c \<in> set exampleCollect. references c = {||} \<and> kind c = ''FunctionDeclaration''
          \<and> name c = Some ''f'' \<and> idNode c = 11)
   \<and> rgfReplace {} (registerNames exampleCollect \<lparr>queue = [], names = [], definingNodes = []\<rparr>)
       Map.empty ''_R'' exampleOccurrence (Some 99) = None"
proof -
  have n: "nodeName (occNode exampleOccurrence) = ''f''"
    and t: "ntype (occNode exampleOccurrence) = ''Identifier''"
    and i: "isReferenced (info exampleOccurrence)" "\<not> isDefined (info exampleOccurrence)"
    by (simp_all add: exampleOccurrence_def nodeName_def Identifier_def)
  show ?thesis
    using rgf_rewrites_only_bound_occurrences
      [of "{}" "registerNames exampleCollect \<lparr>queue = [], names = [], definingNodes = []\<rparr>"
          Map.empty "''_R''" exampleOccurrence "Some 11" exampleCollect]
      rgf_rewrites_only_bound_occurrences
      [of "{}" "registerNames exampleCollect \<lparr>queue = [], names = [], definingNodes = []\<rparr>"
          Map.empty "''_R''" exampleOccurrence "Some 99" exampleCollect]
    by (simp add: exampleCollect_registry n t i)
qed


section \<open>Dispatcher: rewriting the references to a dispatched function\<close>

text \<open>
  Lines 468 to 585 of the Dispatcher (\<^verbatim>\<open>part_000\<close>): what becomes of one collected
  identifier. \<^verbatim>\<open>newFnNames\<close> maps the name of a dispatched function to its key,
  \<^verbatim>\<open>functionDeclarations\<close> holds the dispatched names. The result says which node the
  source overwrites in place: the parent call expression, the identifier itself, or none;
  \<open>Failure\<close> is the error the source raises.
\<close>

record dispatcherNames =
  payloadArg :: string
  dispatcherFnName :: string
  expectedGet :: string
  expectedClearArgs :: string
  expectedNew :: string
  newReturnMemberName :: string

datatype rewrite = Unchanged | ReplaceParent node | ReplaceSelf node | Failure string

definition callArguments :: "node \<Rightarrow> node list" where
  "callArguments p0 = (case children p0 of [callee, Node t a args] \<Rightarrow> args | _ \<Rightarrow> [])"

definition isInvocation :: "occurrence \<Rightarrow> bool" where
  "isInvocation occ =
     (isFunctionCall (info occ)
      \<and> (case parent occ of None \<Rightarrow> False | Some p0 \<Rightarrow> ntype p0 = ''CallExpression'')
      \<and> isParentCallee occ)"

definition dispatcherCall :: "dispatcherNames \<Rightarrow> string \<Rightarrow> node list \<Rightarrow> string \<Rightarrow> node" where
  "dispatcherCall ns newName arguments type =
     (let assignmentExpressions =
            (if arguments \<noteq> [] then
               [AssignmentExpression ''='' (Identifier (payloadArg ns)) (ArrayExpression arguments)]
             else []);
          dispatcherArgs =
            (if arguments \<noteq> [] then [Literal (StrLit newName)]
             else [Literal (StrLit newName), Literal (StrLit (expectedClearArgs ns))]);
          callExpression =
            (if type = ''CallExpression'' then
               CallExpression (Identifier (dispatcherFnName ns)) dispatcherArgs
             else
               MemberExpression
                 (NewExpression (Identifier (dispatcherFnName ns))
                    ((if length dispatcherArgs = 1 then dispatcherArgs @ [Identifier ''undefined'']
                      else dispatcherArgs) @ [Literal (StrLit (expectedNew ns))]))
                 (Identifier (newReturnMemberName ns)) False)
      in if assignmentExpressions \<noteq> [] then
           SequenceExpression (assignmentExpressions @ [callExpression])
         else callExpression)"

definition dispatcherRewrite ::
  "dispatcherNames \<Rightarrow> (string \<rightharpoonup> string) \<Rightarrow> string set \<Rightarrow> occurrence \<Rightarrow> rng \<Rightarrow> rewrite \<times> rng" where
  "dispatcherRewrite ns newFnNames functionDeclarations occ g =
     (let o' = occNode occ in
      if ntype o' \<noteq> ''Identifier'' then (Unchanged, g)
      else case newFnNames (nodeName o') of
        None \<Rightarrow> (Unchanged, g)
      | Some newName \<Rightarrow>
          if newName = [] then (Unchanged, g)
          else if nodeName o' \<notin> functionDeclarations then
            (Failure ''newName, missing function declaration'', g)
          else if isInvocation occ then
            (if nodeName o' = dispatcherFnName ns then (Unchanged, g)
             else case choice ''CallExpression'' [''NewExpression''] g of
               (type, g') \<Rightarrow>
                 (ReplaceParent
                    (dispatcherCall ns newName
                       (case parent occ of None \<Rightarrow> [] | Some p0 \<Rightarrow> callArguments p0) type), g'))
          else if isDefined (info occ) then (Unchanged, g)
          else if isModified (info occ) then (Unchanged, g)
          else (ReplaceSelf
                  (CallExpression (Identifier (dispatcherFnName ns))
                     [Literal (StrLit newName), Literal (StrLit (expectedGet ns))]), g))"

definition exampleNames :: dispatcherNames where
  "exampleNames =
     \<lparr>payloadArg = ''payload'', dispatcherFnName = ''dispatcher'', expectedGet = ''get'',
      expectedClearArgs = ''clear'', expectedNew = ''new'', newReturnMemberName = ''member''\<rparr>"

text \<open>
  C5, as stated, fails where a call without arguments is rewritten in the
  \<^verbatim>\<open>NewExpression\<close> form: the second argument is then the clear-arguments flag, not
  \<^verbatim>\<open>undefined\<close>.
\<close>

theorem dispatcher_new_form_counterexample:
  "fst (dispatcherRewrite exampleNames [''f'' \<mapsto> ''key''] {''f''} exampleOccurrence (drawsFrom [999]))
     = ReplaceParent
         (MemberExpression
            (NewExpression (Identifier ''dispatcher'')
               [Literal (StrLit ''key''), Literal (StrLit ''clear''), Literal (StrLit ''new'')])
            (Identifier ''member'') False)
   \<and> fst (dispatcherRewrite exampleNames [''f'' \<mapsto> ''key''] {''f''} exampleOccurrence (drawsFrom [999]))
     \<noteq> ReplaceParent
         (MemberExpression
            (NewExpression (Identifier ''dispatcher'')
               [Literal (StrLit ''key''), Identifier ''undefined'', Literal (StrLit ''new'')])
            (Identifier ''member'') False)"
  by (simp add: dispatcherRewrite_def dispatcherCall_def exampleNames_def exampleOccurrence_def
      isInvocation_def callArguments_def choice_def getRandomInteger_draw nodeName_def
      Identifier_def CallExpression_def Array_def MemberExpression_def NewExpression_def
      Literal_def)


text \<open>
  C5, amended: for an identifier that names a dispatched function (and not the
  dispatcher itself), an invoking occurrence has its parent call replaced. In the
  \<^verbatim>\<open>CallExpression\<close> form a call with arguments becomes the sequence of the payload
  assignment and \<^verbatim>\<open>dispatcher(key)\<close>, a call without arguments becomes
  \<^verbatim>\<open>dispatcher(key, expectedClearArgs)\<close> with no assignment. In the \<^verbatim>\<open>NewExpression\<close>
  form a call with arguments becomes the sequence of the payload assignment and
  \<^verbatim>\<open>new dispatcher(key, undefined, expectedNew).member\<close>, a call without arguments
  becomes \<^verbatim>\<open>new dispatcher(key, expectedClearArgs, expectedNew).member\<close>. A
  non-invoking occurrence that is neither defined nor modified becomes
  \<^verbatim>\<open>dispatcher(key, expectedGet)\<close>; a defined or modified one is left unchanged.
\<close>

theorem dispatcher_rewrites_references:
  assumes "ntype (occNode occ) = ''Identifier''"
    and "newFnNames (nodeName (occNode occ)) = Some key" and "key \<noteq> []"
    and "nodeName (occNode occ) \<in> functionDeclarations"
    and "nodeName (occNode occ) \<noteq> dispatcherFnName ns"
  shows "(isInvocation occ \<longrightarrow>
            (\<exists>p0 type. parent occ = Some p0
               \<and> type = fst (choice ''CallExpression'' [''NewExpression''] g)
               \<and> fst (dispatcherRewrite ns newFnNames functionDeclarations occ g)
                 = ReplaceParent
                     (if type = ''CallExpression'' then
                        (if callArguments p0 \<noteq> [] then
                           SequenceExpression
                             [AssignmentExpression ''='' (Identifier (payloadArg ns))
                                (ArrayExpression (callArguments p0)),
                              CallExpression (Identifier (dispatcherFnName ns))
                                [Literal (StrLit key)]]
                         else
                           CallExpression (Identifier (dispatcherFnName ns))
                             [Literal (StrLit key), Literal (StrLit (expectedClearArgs ns))])
                      else
                        (if callArguments p0 \<noteq> [] then
                           SequenceExpression
                             [AssignmentExpression ''='' (Identifier (payloadArg ns))
                                (ArrayExpression (callArguments p0)),
                              MemberExpression
                                (NewExpression (Identifier (dispatcherFnName ns))
                                   [Literal (StrLit key), Identifier ''undefined'',
                                    Literal (StrLit (expectedNew ns))])
                                (Identifier (newReturnMemberName ns)) False]
                         else
                           MemberExpression
                             (NewExpression (Identifier (dispatcherFnName ns))
                                [Literal (StrLit key), Literal (StrLit (expectedClearArgs ns)),
                                 Literal (StrLit (expectedNew ns))])
                             (Identifier (newReturnMemberName ns)) False))))
         \<and> (\<not> isInvocation occ \<and> \<not> isDefined (info occ) \<and> \<not> isModified (info occ) \<longrightarrow>
              dispatcherRewrite ns newFnNames functionDeclarations occ g
                = (ReplaceSelf
                     (CallExpression (Identifier (dispatcherFnName ns))
                        [Literal (StrLit key), Literal (StrLit (expectedGet ns))]), g))
         \<and> (\<not> isInvocation occ \<and> (isDefined (info occ) \<or> isModified (info occ)) \<longrightarrow>
              dispatcherRewrite ns newFnNames functionDeclarations occ g = (Unchanged, g))"
proof (intro conjI impI)
  assume inv: "isInvocation occ"
  then obtain p0 where p0: "parent occ = Some p0"
    by (auto simp: isInvocation_def split: option.splits)
  obtain type g' where c: "choice ''CallExpression'' [''NewExpression''] g = (type, g')"
    by (cases "choice ''CallExpression'' [''NewExpression''] g")
  have r: "fst (dispatcherRewrite ns newFnNames functionDeclarations occ g)
           = ReplaceParent (dispatcherCall ns key (callArguments p0) type)"
    using assms inv p0 c by (simp add: dispatcherRewrite_def Let_def)
  show "\<exists>p0 type. parent occ = Some p0
               \<and> type = fst (choice ''CallExpression'' [''NewExpression''] g)
               \<and> fst (dispatcherRewrite ns newFnNames functionDeclarations occ g)
                 = ReplaceParent
                     (if type = ''CallExpression'' then
                        (if callArguments p0 \<noteq> [] then
                           SequenceExpression
                             [AssignmentExpression ''='' (Identifier (payloadArg ns))
                                (ArrayExpression (callArguments p0)),
                              CallExpression (Identifier (dispatcherFnName ns))
                                [Literal (StrLit key)]]
                         else
                           CallExpression (Identifier (dispatcherFnName ns))
                             [Literal (StrLit key), Literal (StrLit (expectedClearArgs ns))])
                      else
                        (if callArguments p0 \<noteq> [] then
                           SequenceExpression
                             [AssignmentExpression ''='' (Identifier (payloadArg ns))
                                (ArrayExpression (callArguments p0)),
                              MemberExpression
                                (NewExpression (Identifier (dispatcherFnName ns))
                                   [Literal (StrLit key), Identifier ''undefined'',
                                    Literal (StrLit (expectedNew ns))])
                                (Identifier (newReturnMemberName ns)) False]
                         else
                           MemberExpression
                             (NewExpression (Identifier (dispatcherFnName ns))
                                [Literal (StrLit key), Literal (StrLit (expectedClearArgs ns)),
                                 Literal (StrLit (expectedNew ns))])
                             (Identifier (newReturnMemberName ns)) False))"
    using p0 c r by (simp add: dispatcherCall_def Let_def)
next
  assume "\<not> isInvocation occ \<and> \<not> isDefined (info occ) \<and> \<not> isModified (info occ)"
  then show "dispatcherRewrite ns newFnNames functionDeclarations occ g
                = (ReplaceSelf
                     (CallExpression (Identifier (dispatcherFnName ns))
                        [Literal (StrLit key), Literal (StrLit (expectedGet ns))]), g)"
    using assms by (simp add: dispatcherRewrite_def Let_def)
next
  assume "\<not> isInvocation occ \<and> (isDefined (info occ) \<or> isModified (info occ))"
  then show "dispatcherRewrite ns newFnNames functionDeclarations occ g = (Unchanged, g)"
    using assms by (auto simp: dispatcherRewrite_def Let_def)
qed

definition exampleCallWithArguments :: occurrence where
  "exampleCallWithArguments =
     \<lparr>occNode = Identifier ''f'',
      parent = Some (CallExpression (Identifier ''f'') [Literal (NumLit 3)]),
      isParentLeft = False, isParentCallee = True,
      info = \<lparr>isReferenced = True, isDefined = False, isModified = False,
               isFunctionDeclaration = False, isFunctionCall = True\<rparr>\<rparr>"

theorem dispatcher_rewrites_references_witness:
  "isInvocation exampleCallWithArguments
   \<and> fst (dispatcherRewrite exampleNames [''f'' \<mapsto> ''key''] {''f''} exampleCallWithArguments
           (drawsFrom [100]))
     = ReplaceParent
         (SequenceExpression
            [AssignmentExpression ''='' (Identifier ''payload'')
               (ArrayExpression [Literal (NumLit 3)]),
             CallExpression (Identifier ''dispatcher'') [Literal (StrLit ''key'')]])"
proof -
  have a: "ntype (occNode exampleCallWithArguments) = ''Identifier''"
    "[''f'' \<mapsto> ''key''] (nodeName (occNode exampleCallWithArguments)) = Some ''key''"
    "''key'' \<noteq> []"
    "nodeName (occNode exampleCallWithArguments) \<in> {''f''}"
    "nodeName (occNode exampleCallWithArguments) \<noteq> dispatcherFnName exampleNames"
    by (simp_all add: exampleCallWithArguments_def nodeName_def Identifier_def exampleNames_def)
  have i: "isInvocation exampleCallWithArguments"
    by (simp add: isInvocation_def exampleCallWithArguments_def CallExpression_def)
  have c: "fst (choice ''CallExpression'' [''NewExpression''] (drawsFrom [100])) = ''CallExpression''"
    by (simp add: choice_def getRandomInteger_draw)
  have p: "parent exampleCallWithArguments
           = Some (CallExpression (Identifier ''f'') [Literal (NumLit 3)])"
    "callArguments (CallExpression (Identifier ''f'') [Literal (NumLit 3)]) = [Literal (NumLit 3)]"
    by (simp_all add: exampleCallWithArguments_def callArguments_def CallExpression_def Array_def)
  show ?thesis
    using dispatcher_rewrites_references
      [where occ = exampleCallWithArguments and newFnNames = "[''f'' \<mapsto> ''key'']"
         and key = "''key''" and functionDeclarations = "{''f''}" and ns = exampleNames
         and g = "drawsFrom [100]"] a i c p
    by (auto simp: exampleNames_def)
qed


section \<open>Flatten: the moved body and the wrapper\<close>

text \<open>
  Lines 249 to 470 of Flatten (\<^verbatim>\<open>part_001\<close>). The names the pass generates are inputs:
  \<^verbatim>\<open>newName\<close>, \<^verbatim>\<open>resultName\<close>, \<^verbatim>\<open>propName\<close>, the key of every output name, the key
  of the return value, \<^verbatim>\<open>decoyKey\<close> and the eight further names of the decoys, in the
  order the source draws them. \<open>outputs\<close> is the source's \<^verbatim>\<open>output\<close>. The walk over the
  body rewrites, on leaving it, every \<^verbatim>\<open>ReturnStatement\<close> whose nearest enclosing var
  context is the function itself; a nested function is walked but nothing in it is changed.
\<close>

record flattenNames =
  newName :: string
  resultName :: string
  propName :: string
  newOutputNames :: "string \<Rightarrow> string"
  returnOutputName :: string
  decoyKey :: string
  generated :: "nat \<Rightarrow> string"

















lemma shuffle_set: "set (fst (shuffle xs g)) = set xs"
proof (induction xs arbitrary: g)
  case Nil
  then show ?case by simp
next
  case (Cons x xs)
  obtain ys g1 where s: "shuffle xs g = (ys, g1)" by (cases "shuffle xs g")
  obtain i g2 where i: "getRandomInteger 0 (int (length ys) + 1) g1 = (i, g2)"
    by (cases "getRandomInteger 0 (int (length ys) + 1) g1")
  have "set (take (nat i) ys) \<union> set (drop (nat i) ys) = set ys"
    by (metis append_take_drop_id set_append)
  then have "set (take (nat i) ys @ x # drop (nat i) ys) = insert x (set ys)"
    by auto
  then show ?case using Cons.IH [of g] s i by simp
qed















section \<open>The transform base: generating identifiers\<close>

text \<open>
  \<^verbatim>\<open>Transform.generateIdentifier\<close> (lines 210 to 333 of \<^verbatim>\<open>transform.ts\<close>). The
  obfuscator owns \<^verbatim>\<open>varCount\<close> and the set \<^verbatim>\<open>generated\<close>. The option
  \<^verbatim>\<open>identifierGenerator\<close> is a mode name or absent (then the mode is
  \<^verbatim>\<open>randomized\<close>); a weighted composite is not modelled. \<^verbatim>\<open>reservedKeywords\<close>,
  \<^verbatim>\<open>reservedIdentifiers\<close> (of \<^verbatim>\<open>constants\<close>) and \<^verbatim>\<open>alphabeticalGenerator\<close> (of
  \<^verbatim>\<open>util/random\<close>) are not among the sources and are parameters. The local variable
  \<^verbatim>\<open>count\<close> is shared by the iterations of the \<^verbatim>\<open>do ... while\<close> loop, which the mangled
  mode advances; both loops may run forever.
\<close>

datatype error = InvalidMode string | IdentifierNull | RangeError

record obfuscator =
  varCount :: int
  generated :: "string set"

record identifierOptions =
  identifierGenerator :: "string option"
  reservedKeywords :: "string set"
  reservedIdentifiers :: "string set"
  alphabeticalGenerator :: "int \<Rightarrow> string"

function decimal :: "nat \<Rightarrow> string" where
  "decimal n = (if n < 10 then [digitChar (int n)]
                else decimal (n div 10) @ [digitChar (int (n mod 10))])"
  by pat_completeness auto
termination
  by (relation "measure id") auto

declare decimal.simps [simp del]

definition numberToString :: "int \<Rightarrow> string" where
  "numberToString i = (if i < 0 then ''-'' @ decimal (nat (- i)) else decimal (nat i))"

definition characters :: string where
  "characters = ''_ABCDEFGHIJKLMNOPQRSTUVWXYZabcdefghijklmnopqrstuvwxyz''"

definition numbers :: string where
  "numbers = ''0123456789''"

fun randomizedChars :: "nat \<Rightarrow> nat \<Rightarrow> rng \<Rightarrow> string \<times> rng" where
  "randomizedChars i 0 g = ([], g)"
| "randomizedChars i (Suc n) g =
     (case (if i = 0 then choice (hd characters) (tl characters) g
            else choice (hd characters) (tl characters @ numbers) g) of
        (c, g1) \<Rightarrow> case randomizedChars (Suc i) n g1 of (cs, g2) \<Rightarrow> (c # cs, g2))"

definition hexChar :: "int \<Rightarrow> char" where
  "hexChar d = ''0123456789ABCDEF'' ! nat d"

definition genRanHex16 :: "nat \<Rightarrow> rng \<Rightarrow> string \<times> rng" where
  "genRanHex16 n g =
     arrayFillMap n (\<lambda>g. case Math_random g of (u, g') \<Rightarrow> (hexChar \<lfloor>u * 16\<rfloor>, g')) g"

definition keyWords :: "string list" where
  "keyWords =
     [''if'', ''in'', ''for'', ''let'', ''new'', ''try'', ''var'', ''case'', ''else'', ''null'',
      ''break'', ''catch'', ''class'', ''const'', ''super'', ''throw'', ''while'', ''yield'',
      ''delete'', ''export'', ''import'', ''public'', ''return'', ''switch'', ''default'',
      ''finally'', ''private'', ''continue'', ''debugger'', ''function'', ''arguments'',
      ''protected'', ''instanceof'', ''function'', ''await'', ''async'']"

definition zeroWidthNonJoiner :: string where
  "zeroWidthNonJoiner = [CHR 0xE2, CHR 0x80, CHR 0x8C]"

partial_function (option) mangledLoop :: "identifierOptions \<Rightarrow> int \<Rightarrow> (string \<times> int) option" where
  "mangledLoop opts count =
     (if alphabeticalGenerator opts count \<in> reservedKeywords opts
         \<or> alphabeticalGenerator opts count \<in> reservedIdentifiers opts
      then mangledLoop opts (count + 1)
      else Some (alphabeticalGenerator opts count, count + 1))"

definition effectiveMode :: "identifierOptions \<Rightarrow> string option \<Rightarrow> string" where
  "effectiveMode opts overrideMode =
     (case overrideMode of
        Some m \<Rightarrow> m
      | None \<Rightarrow> (case identifierGenerator opts of Some m \<Rightarrow> m | None \<Rightarrow> ''randomized''))"

definition generateOnce ::
  "identifierOptions \<Rightarrow> string option \<Rightarrow> int \<Rightarrow> int \<Rightarrow> rng
     \<Rightarrow> (error + string \<times> int \<times> rng) option" where
  "generateOnce opts overrideMode len count g =
     (let mode = effectiveMode opts overrideMode
      in if mode = ''randomized'' then
           (case randomizedChars 0 (nat len) g of (cs, g') \<Rightarrow> Some (Inr (cs, count, g')))
         else if mode = ''hexadecimal'' then
           (if len < 0 then Some (Inl RangeError)
            else case genRanHex16 (nat len) g of (cs, g') \<Rightarrow> Some (Inr (''_0x'' @ cs, count, g')))
         else if mode = ''mangled'' then
           (case mangledLoop opts count of
              None \<Rightarrow> None
            | Some (r, count') \<Rightarrow> Some (Inr (r, count', g)))
         else if mode = ''number'' then Some (Inr (''var_'' @ numberToString count, count, g))
         else if mode = ''zeroWidth'' then
           (if count + 1 < 0 then Some (Inl RangeError)
            else case choice (hd keyWords) (tl keyWords) g of
                   (k, g') \<Rightarrow>
                     Some (Inr (k @ concat (replicate (nat (count + 1)) zeroWidthNonJoiner),
                                count, g')))
         else Some (Inl (InvalidMode mode)))"

partial_function (option) generateLoop ::
  "identifierOptions \<Rightarrow> string option \<Rightarrow> int \<Rightarrow> string set \<Rightarrow> int \<Rightarrow> rng
     \<Rightarrow> (error + string \<times> int \<times> rng) option" where
  "generateLoop opts overrideMode len seen count g =
     (case generateOnce opts overrideMode len count g of
        None \<Rightarrow> None
      | Some (Inl e) \<Rightarrow> Some (Inl e)
      | Some (Inr (i, count', g')) \<Rightarrow>
          if i \<in> seen then generateLoop opts overrideMode len seen count' g'
          else Some (Inr (i, count', g')))"

definition generateIdentifier ::
  "identifierOptions \<Rightarrow> obfuscator \<Rightarrow> int \<Rightarrow> int \<Rightarrow> string option \<Rightarrow> rng
     \<Rightarrow> (error + string \<times> obfuscator \<times> rng) option" where
  "generateIdentifier opts obf len count overrideMode g =
     (case (if len = - 1 then getRandomInteger 6 8 g else (len, g)) of
        (len', g1) \<Rightarrow>
          let obf1 = (if count = - 1 then obf\<lparr>varCount := varCount obf + 1\<rparr> else obf);
              count1 = (if count = - 1 then varCount obf1 else count);
              seen = (if count = - 1 then generated obf1 else {})
          in case generateLoop opts overrideMode len' seen count1 g1 of
               None \<Rightarrow> None
             | Some (Inl e) \<Rightarrow> Some (Inl e)
             | Some (Inr (i, count', g2)) \<Rightarrow>
                 if i = [] then Some (Inl IdentifierNull)
                 else Some (Inr (i,
                        (if count = - 1 then obf1\<lparr>generated := insert i (generated obf1)\<rparr>
                         else obf1), g2)))"



definition randomizedOptions :: identifierOptions where
  "randomizedOptions =
     \<lparr>identifierGenerator = None, reservedKeywords = {''return''},
      reservedIdentifiers = {''undefined''}, alphabeticalGenerator = (\<lambda>i. ''a'')\<rparr>"

definition freshObfuscator :: obfuscator where
  "freshObfuscator = \<lparr>varCount = 0, generated = {}\<rparr>"


lemma randomizedChars_numeral:
  "randomizedChars i (numeral n) g =
     (case (if i = 0 then choice (hd characters) (tl characters) g
            else choice (hd characters) (tl characters @ numbers) g) of
        (c, g1) \<Rightarrow> case randomizedChars (Suc i) (pred_numeral n) g1 of (cs, g2) \<Rightarrow> (c # cs, g2))"
  by (simp add: numeral_eq_Suc)



text \<open>
  The randomized mode does not consult the reserved sets: with \<^verbatim>\<open>return\<close> among the
  reserved keywords, these draws make it the identifier.
\<close>

lemma randomized_return:
  "generateIdentifier randomizedOptions freshObfuscator (- 1) (- 1) None
       (drawsFrom [0, 840, 500, 740, 750, 700, 640])
     = Some (Inr (''return'', \<lparr>varCount = 1, generated = {''return''}\<rparr>,
          drawsFrom [0, 840, 500, 740, 750, 700, 640] \<circ> Suc \<circ> Suc \<circ> Suc \<circ> Suc \<circ> Suc \<circ> Suc \<circ> Suc))"
  apply (simp add: generateIdentifier_def getRandomInteger_draw freshObfuscator_def)
  apply (subst generateLoop.simps)
  apply (simp add: generateOnce_def effectiveMode_def randomizedOptions_def choice_def
      getRandomInteger_draw characters_def numbers_def randomizedChars_numeral)
  done









section \<open>Control flow flattening: cutting the body into chunks\<close>

text \<open>
  The flattening reads the fields of a node by name. Here the children of a node are its
  fields in a fixed order, a missing field being \<^verbatim>\<open>Null\<close>: a \<^verbatim>\<open>LabeledStatement\<close> has
  its label and its body; a \<^verbatim>\<open>ForStatement\<close> its init, test, update and body; a
  \<^verbatim>\<open>WhileStatement\<close> its test and body; a \<^verbatim>\<open>SwitchStatement\<close> its discriminant and
  the array of its cases; a \<^verbatim>\<open>SwitchCase\<close> its test and the array of its consequent; an
  \<^verbatim>\<open>IfStatement\<close> its test, consequent and alternate; a \<^verbatim>\<open>BreakStatement\<close> its label;
  a block the array of its statements. Modelled from the spec: \<^verbatim>\<open>isBlock\<close> is not among
  the sources; the spec gives it as \<open>n.type \<in> {Program, BlockStatement}\<close>.
\<close>

definition nthChild :: "node \<Rightarrow> nat \<Rightarrow> node" where
  "nthChild n i = (if i < length (children n) then children n ! i else Null)"

definition blockBody :: "node \<Rightarrow> node list" where
  "blockBody b = children (nthChild b 0)"

definition labelName :: "node \<Rightarrow> string option" where
  "labelName n =
     (if ntype (nthChild n 0) = ''Identifier'' then Some (nodeName (nthChild n 0)) else None)"

definition gotoLabel :: "node \<Rightarrow> string" where
  "gotoLabel n = (case attr n of Label l \<Rightarrow> l | _ \<Rightarrow> [])"

definition isBlock :: "node \<Rightarrow> bool" where
  "isBlock n = (ntype n = ''Program'' \<or> ntype n = ''BlockStatement'')"

text \<open>
  A node is, or has below it, a \<^verbatim>\<open>GotoStatement\<close>.
\<close>

fun containsGoto :: "node \<Rightarrow> bool" where
  "containsGoto (Node t a cs) = (t = ''GotoStatement'' \<or> list_ex containsGoto cs)"

text \<open>
  Lines 233 to 260: the body of a labeled loop is walked for \<^verbatim>\<open>break\<close> and
  \<^verbatim>\<open>continue\<close> statements. One that has no label or another label makes the loop
  impossible to flatten (\<open>offending\<close>), and then nothing is replaced; otherwise every
  \<^verbatim>\<open>break L\<close> becomes a goto to \<^verbatim>\<open>afterPath\<close> and every \<^verbatim>\<open>continue L\<close> a goto to
  \<^verbatim>\<open>updatePath\<close>. For a labeled \<^verbatim>\<open>switch\<close> the source walks the field \<^verbatim>\<open>body\<close>, which
  a \<^verbatim>\<open>SwitchStatement\<close> does not have, so nothing is found and nothing is replaced.
\<close>

definition isJump :: "bool \<Rightarrow> node \<Rightarrow> bool" where
  "isJump supportContinueStatement n =
     (ntype n = ''BreakStatement'' \<or> (supportContinueStatement \<and> ntype n = ''ContinueStatement''))"

fun offending :: "string \<Rightarrow> bool \<Rightarrow> node \<Rightarrow> bool" where
  "offending lbl supportContinueStatement (Node t a cs) =
     ((isJump supportContinueStatement (Node t a cs) \<and> labelName (Node t a cs) \<noteq> Some lbl)
      \<or> list_ex (offending lbl supportContinueStatement) cs)"

fun replaceJumps :: "string \<Rightarrow> bool \<Rightarrow> string \<Rightarrow> string \<Rightarrow> node \<Rightarrow> node" where
  "replaceJumps lbl supportContinueStatement afterPath updatePath (Node t a cs) =
     (if isJump supportContinueStatement (Node t a cs) \<and> labelName (Node t a cs) = Some lbl
      then GotoStatement (if t = ''BreakStatement'' then afterPath else updatePath)
      else Node t a (map (replaceJumps lbl supportContinueStatement afterPath updatePath) cs))"

text \<open>
  Lines 154 to 177: the state of one call of \<^verbatim>\<open>flattenBody\<close> is the list of finished
  chunks, the statements of the chunk being filled and its label.
  \<^verbatim>\<open>finishCurrentChunk(pointingLabel, newLabel)\<close> closes the current chunk with a goto;
  an argument that is missing or empty is replaced, the new label by a fresh placeholder
  and the pointing label by the new label. Line 437 pops the last statement of the last
  chunk.
\<close>

record flat =
  finished :: "chunk list"
  currentBody :: "node list"
  currentLabel :: string

definition finishCurrentChunk :: "string option \<Rightarrow> string option \<Rightarrow> flat \<Rightarrow> rng \<Rightarrow> flat \<times> rng" where
  "finishCurrentChunk pointingLabel newLabel st g =
     (case (case newLabel of
              Some l \<Rightarrow> if l = [] then getPlaceholder g else (l, g)
            | None \<Rightarrow> getPlaceholder g) of
        (newLabel', g1) \<Rightarrow>
          let pointingLabel' =
                (case pointingLabel of
                   Some p \<Rightarrow> if p = [] then newLabel' else p
                 | None \<Rightarrow> newLabel')
          in (\<lparr>finished = finished st
                   @ [\<lparr>label = currentLabel st,
                        body = currentBody st @ [GotoStatement pointingLabel']\<rparr>],
               currentBody = [], currentLabel = newLabel'\<rparr>, g1))"

definition pushStatement :: "node \<Rightarrow> flat \<Rightarrow> flat" where
  "pushStatement s st = st\<lparr>currentBody := currentBody st @ [s]\<rparr>"

definition pushChunks :: "chunk list \<Rightarrow> flat \<Rightarrow> flat" where
  "pushChunks cs st = st\<lparr>finished := finished st @ cs\<rparr>"

definition popLastGoto :: "chunk list \<Rightarrow> chunk list" where
  "popLastGoto cs =
     (case rev cs of
        [] \<Rightarrow> []
      | c # earlier \<Rightarrow> rev earlier @ [c\<lparr>body := butlast (body c)\<rparr>])"

text \<open>
  Lines 195 to 217 and 369 to 373: the shapes that are flattened. A labeled \<^verbatim>\<open>switch\<close> is
  left as it is when it has no case or when one of its cases has no test, an empty
  consequent, a first \<^verbatim>\<open>break\<close> that is not its last statement, or a last statement that
  is not \<^verbatim>\<open>break L\<close>. A \<^verbatim>\<open>do ... while\<close> loop never passes the test of lines 196 to
  199, so the post-test flag of line 317 is never set.
\<close>

definition findIndex :: "('a \<Rightarrow> bool) \<Rightarrow> 'a list \<Rightarrow> int" where
  "findIndex P xs = (if list_ex P xs then int (length (takeWhile (\<lambda>x. \<not> P x) xs)) else - 1)"

definition invalidCase :: "string \<Rightarrow> node \<Rightarrow> bool" where
  "invalidCase lbl x =
     (let consequent = children (nthChild x 1)
      in ntype (nthChild x 0) = ''Null''
         \<or> consequent = []
         \<or> findIndex (\<lambda>n. ntype n = ''BreakStatement'') consequent \<noteq> int (length consequent) - 1
         \<or> ntype (last consequent) \<noteq> ''BreakStatement''
         \<or> labelName (last consequent) \<noteq> Some lbl)"

definition isFlattenableLabeled :: "node \<Rightarrow> bool" where
  "isFlattenableLabeled s =
     (ntype s = ''LabeledStatement''
      \<and> (let control = nthChild s 1
         in ntype control = ''SwitchStatement''
            \<or> (ntype control = ''ForStatement'' \<and> ntype (nthChild control 3) = ''BlockStatement'')
            \<or> (ntype control = ''WhileStatement'' \<and> ntype (nthChild control 1) = ''BlockStatement'')))"

definition isFlattenableIf :: "node \<Rightarrow> bool" where
  "isFlattenableIf s =
     (ntype s = ''IfStatement'' \<and> ntype (nthChild s 1) = ''BlockStatement''
      \<and> (ntype (nthChild s 2) = ''Null'' \<or> ntype (nthChild s 2) = ''BlockStatement''))"

definition loopBody :: "node \<Rightarrow> node" where
  "loopBody control = (if ntype control = ''ForStatement'' then nthChild control 3 else nthChild control 1)"

text \<open>
  Every recursive call of \<^verbatim>\<open>flattenBody\<close> is on the statements of a block, or on the
  cases of a switch, below the statement at hand; these bounds on sizes make the
  recursion well founded.
\<close>

lemma size_children: "size_list size (children n) < size n"
  by (cases n) simp

lemma size_nthChild: "ntype (nthChild n i) \<noteq> ''Null'' \<Longrightarrow> size (nthChild n i) < size n"
proof -
  assume a: "ntype (nthChild n i) \<noteq> ''Null''"
  then have i: "i < length (children n)" by (auto simp: nthChild_def Null_def split: if_splits)
  then have "children n ! i \<in> set (children n)" by simp
  then have "size (children n ! i) \<le> size_list size (children n)"
    by (simp add: size_list_estimation')
  then show ?thesis using size_children [of n] i by (simp add: nthChild_def)
qed

lemma size_blockBody: "ntype b = ''BlockStatement'' \<Longrightarrow> size_list size (blockBody b) < size b"
proof -
  have "size_list size (children (nthChild b 0)) < size (nthChild b 0)" by (rule size_children)
  moreover have "size (nthChild b 0) \<le> size b"
  proof (cases "0 < length (children b)")
    case True
    then have "children b ! 0 \<in> set (children b)" by simp
    then have "size (children b ! 0) \<le> size_list size (children b)"
      by (simp add: size_list_estimation')
    then show ?thesis using size_children [of b] True by (simp add: nthChild_def)
  next
    case False
    then show ?thesis by (cases b) (simp add: nthChild_def Null_def)
  qed
  ultimately show ?thesis by (simp add: blockBody_def)
qed

lemma size_replaceJumps: "size (replaceJumps lbl sc afterPath updatePath n) \<le> size n"
proof (induction n)
  case (Node t a cs)
  have "size_list size (map (replaceJumps lbl sc afterPath updatePath) cs) \<le> size_list size cs"
    using Node.IH by (induction cs) (auto intro: add_mono)
  then show ?case by (simp add: GotoStatement_def)
qed

lemma size_grandchildren: "size_list size (children (nthChild n i)) < size n"
proof (cases "i < length (children n)")
  case True
  then have "children n ! i \<in> set (children n)" by simp
  then have "size (children n ! i) \<le> size_list size (children n)"
    by (simp add: size_list_estimation')
  then have "size (nthChild n i) < size n" using size_children [of n] True by (simp add: nthChild_def)
  then show ?thesis using size_children [of "nthChild n i"] by simp
next
  case False
  then show ?thesis by (cases n) (simp add: nthChild_def Null_def)
qed

lemma size_butlast: "size_list size (butlast xs) \<le> size_list size xs"
  by (induction xs) auto

lemma ntype_replaceJumps:
  "\<not> isJump sc n \<Longrightarrow> ntype (replaceJumps lbl sc afterPath updatePath n) = ntype n"
  by (cases n) simp

lemma size_loop_body:
  assumes "isFlattenableLabeled stmt" and "ntype (nthChild stmt 1) \<noteq> ''SwitchStatement''"
  shows "size_list size (blockBody (replaceJumps lbl True afterPath updatePath (loopBody (nthChild stmt 1)))) + 3
         \<le> size stmt"
proof -
  let ?control = "nthChild stmt 1"
  have c: "ntype ?control = ''ForStatement'' \<or> ntype ?control = ''WhileStatement''"
    and b: "ntype (loopBody ?control) = ''BlockStatement''"
    using assms by (auto simp: isFlattenableLabeled_def Let_def loopBody_def)
  have nj: "\<not> isJump True (loopBody ?control)" using b by (simp add: isJump_def)
  let ?b' = "replaceJumps lbl True afterPath updatePath (loopBody ?control)"
  have "ntype ?b' = ''BlockStatement''" using ntype_replaceJumps [OF nj] b by simp
  then have 1: "size_list size (blockBody ?b') < size ?b'" by (rule size_blockBody)
  have 2: "size ?b' \<le> size (loopBody ?control)" by (rule size_replaceJumps)
  have 3: "size (loopBody ?control) < size ?control"
    using b by (auto simp: loopBody_def intro: size_nthChild)
  have 4: "size ?control < size stmt" using c by (auto intro: size_nthChild)
  show ?thesis using 1 2 3 4 by simp
qed

lemma size_if_body:
  assumes "ntype (nthChild stmt i) = ''BlockStatement''"
  shows "size_list size (blockBody (nthChild stmt i)) + 2 \<le> size stmt"
proof -
  have "size_list size (blockBody (nthChild stmt i)) < size (nthChild stmt i)"
    using assms by (rule size_blockBody)
  moreover have "size (nthChild stmt i) < size stmt" using assms by (auto intro: size_nthChild)
  ultimately show ?thesis by simp
qed

lemma size_switch_cases:
  assumes "ntype (nthChild stmt 1) = ''SwitchStatement''"
  shows "size_list size (children (nthChild (nthChild stmt 1) 1)) + 2 \<le> size stmt"
proof -
  have "size_list size (children (nthChild (nthChild stmt 1) 1)) < size (nthChild stmt 1)"
    by (rule size_grandchildren)
  moreover have "size (nthChild stmt 1) < size stmt" using assms by (auto intro: size_nthChild)
  ultimately show ?thesis by simp
qed

lemma size_case_body: "size_list size (butlast (children (nthChild c 1))) < size c"
  using size_butlast [of "children (nthChild c 1)"] size_grandchildren [of c 1] by simp

lemma size_GotoStatement: "size (GotoStatement l) = 1"
  by (simp add: GotoStatement_def)

text \<open>
  Lines 150 to 440. \<open>flattenStmts\<close> is the \<^verbatim>\<open>body.forEach\<close> of line 179 and
  \<open>flattenCases\<close> the \<^verbatim>\<open>control.cases.forEach\<close> of line 273. The flag \<open>outermost\<close>
  stands for \<^verbatim>\<open>functionDeclarations.has(stmt)\<close>: that set holds the function
  declarations among the statements of the block being transformed, which only the
  outermost call iterates over. A statement is tried as a goto that is not last, then as
  a labeled switch or loop, then as an \<^verbatim>\<open>if\<close> whose branches are blocks, and otherwise
  joins the current chunk when that is empty or a draw falls below the fraction. The
  alternate of a flattenable \<^verbatim>\<open>if\<close> is absent or a block, so testing that it is a block
  is the source's \<^verbatim>\<open>hasAlternate\<close>.
\<close>

function flattenBody :: "rat \<Rightarrow> bool \<Rightarrow> node list \<Rightarrow> string \<Rightarrow> rng \<Rightarrow> chunk list \<times> rng"
  and flattenStmts :: "rat \<Rightarrow> bool \<Rightarrow> node list \<Rightarrow> flat \<Rightarrow> rng \<Rightarrow> flat \<times> rng"
  and flattenCases :: "rat \<Rightarrow> string \<Rightarrow> string \<Rightarrow> node list \<Rightarrow> flat \<Rightarrow> rng \<Rightarrow> flat \<times> rng" where
  "flattenBody fraction outermost stmts startingLabel g =
     (case flattenStmts fraction outermost stmts
             \<lparr>finished = [], currentBody = [], currentLabel = startingLabel\<rparr> g of
        (st, g1) \<Rightarrow>
          case finishCurrentChunk None None st g1 of
            (st2, g2) \<Rightarrow> (popLastGoto (finished st2), g2))"
| "flattenStmts fraction outermost [] st g = (st, g)"
| "flattenStmts fraction outermost (stmt # rest) st g =
     (if outermost \<and> ntype stmt = ''FunctionDeclaration'' then flattenStmts fraction outermost rest st g
      else if ntype stmt = ''GotoStatement'' \<and> rest \<noteq> [] then
        (case finishCurrentChunk (Some (gotoLabel stmt)) None st g of
           (st1, g1) \<Rightarrow> flattenStmts fraction outermost rest st1 g1)
      else if isFlattenableLabeled stmt then
        (if ntype (nthChild stmt 1) = ''SwitchStatement''
            \<and> (children (nthChild (nthChild stmt 1) 1) = []
                \<or> list_ex (invalidCase (nodeName (nthChild stmt 0)))
                     (children (nthChild (nthChild stmt 1) 1)))
         then flattenStmts fraction outermost rest (pushStatement stmt st) g
         else
           case getPlaceholder g of (testPath, g1) \<Rightarrow>
           case getPlaceholder g1 of (updatePath, g2) \<Rightarrow>
           case getPlaceholder g2 of (bodyPath, g3) \<Rightarrow>
           case getPlaceholder g3 of (afterPath, g4) \<Rightarrow>
             if ntype (nthChild stmt 1) \<noteq> ''SwitchStatement''
                \<and> offending (nodeName (nthChild stmt 0)) True (loopBody (nthChild stmt 1))
             then flattenStmts fraction outermost rest (pushStatement stmt st) g4
             else if ntype (nthChild stmt 1) = ''SwitchStatement'' then
               (case getPlaceholder g4 of (switchVarName, g5) \<Rightarrow>
                case getPlaceholder g5 of (afterPath', g6) \<Rightarrow>
                case finishCurrentChunk None None
                       (pushStatement
                          (VariableDeclaration
                             [VariableDeclarator (Identifier switchVarName)
                                (Some (nthChild (nthChild stmt 1) 0))]) st) g6 of
                  (st2, g7) \<Rightarrow>
                case flattenCases fraction switchVarName afterPath'
                       (children (nthChild (nthChild stmt 1) 1)) st2 g7 of
                  (st3, g8) \<Rightarrow>
                case finishCurrentChunk (Some afterPath') (Some afterPath') st3 g8 of
                  (st4, g9) \<Rightarrow> flattenStmts fraction outermost rest st4 g9)
             else
               (let control = nthChild stmt 1;
                    isFor = (ntype control = ''ForStatement'');
                    init = (if isFor then nthChild control 0 else Null);
                    test = (if isFor then nthChild control 1 else nthChild control 0);
                    update = (if isFor then nthChild control 2 else Null);
                    st1 = (if ntype init = ''Null'' then st
                           else if ntype init = ''VariableDeclaration'' then pushStatement init st
                           else pushStatement (ExpressionStatement init) st)
                in case finishCurrentChunk (Some testPath) (Some testPath) st1 g4 of
                     (st2, g5) \<Rightarrow>
                   case finishCurrentChunk (Some afterPath) (Some bodyPath)
                          (pushStatement
                             (IfStatement
                                (if ntype test = ''Null'' then Literal (BoolLit True) else test)
                                [GotoStatement bodyPath] None) st2) g5 of
                     (st4, g6) \<Rightarrow>
                   case getPlaceholder g6 of (innerBothPath, g7) \<Rightarrow>
                   case flattenBody fraction False
                          (blockBody
                             (replaceJumps (nodeName (nthChild stmt 0)) True afterPath updatePath
                                (loopBody (nthChild stmt 1)))
                           @ [GotoStatement updatePath]) innerBothPath g7 of
                     (inner, g8) \<Rightarrow>
                   case finishCurrentChunk (Some innerBothPath) (Some updatePath)
                          (pushChunks inner st4) g8 of
                     (st5, g9) \<Rightarrow>
                   case finishCurrentChunk (Some testPath) (Some afterPath)
                          (if ntype update = ''Null'' then st5
                           else pushStatement (ExpressionStatement update) st5) g9 of
                     (st7, g10) \<Rightarrow> flattenStmts fraction outermost rest st7 g10))
      else if isFlattenableIf stmt then
        (case finishCurrentChunk None None st g of (st1, g1) \<Rightarrow>
         case getPlaceholder g1 of (yesPath, g2) \<Rightarrow>
         case getPlaceholder g2 of (noPath, g3) \<Rightarrow>
         case getPlaceholder g3 of (afterPath, g4) \<Rightarrow>
         case flattenBody fraction False
                (blockBody (nthChild stmt 1) @ [GotoStatement afterPath]) yesPath g4 of
           (yes, g5) \<Rightarrow>
             if ntype (nthChild stmt 2) = ''BlockStatement'' then
               (case flattenBody fraction False
                       (blockBody (nthChild stmt 2) @ [GotoStatement afterPath]) noPath g5 of
                  (no, g6) \<Rightarrow>
                    case finishCurrentChunk (Some noPath) (Some afterPath)
                           (pushChunks no (pushChunks yes
                              (pushStatement
                                 (IfStatement (nthChild stmt 0) [GotoStatement yesPath] None) st1)))
                           g6 of
                      (st3, g7) \<Rightarrow> flattenStmts fraction outermost rest st3 g7)
             else
               (case finishCurrentChunk (Some afterPath) (Some afterPath)
                       (pushChunks yes
                          (pushStatement
                             (IfStatement (nthChild stmt 0) [GotoStatement yesPath] None) st1))
                       g5 of
                  (st3, g6) \<Rightarrow> flattenStmts fraction outermost rest st3 g6))
      else if currentBody st = [] then flattenStmts fraction outermost rest (pushStatement stmt st) g
      else
        (case Math_random g of
           (r, g1) \<Rightarrow>
             if r < fraction then flattenStmts fraction outermost rest (pushStatement stmt st) g1
             else case finishCurrentChunk None None st g1 of
                    (st1, g2) \<Rightarrow> flattenStmts fraction outermost rest (pushStatement stmt st1) g2))"
| "flattenCases fraction switchVarName afterPath [] st g = (st, g)"
| "flattenCases fraction switchVarName afterPath (switchCase # rest) st g =
     (case getPlaceholder g of (entryPath, g1) \<Rightarrow>
      case flattenBody fraction False
             (butlast (children (nthChild switchCase 1)) @ [GotoStatement afterPath])
             entryPath g1 of
        (inner, g2) \<Rightarrow>
          let st2 = pushChunks inner
                      (pushStatement
                         (IfStatement
                            (BinaryExpression ''==='' (Identifier switchVarName)
                               (nthChild switchCase 0))
                            [GotoStatement entryPath] None) st)
          in if rest = [] then (st2, g2)
             else case finishCurrentChunk None None st2 g2 of
                    (st3, g3) \<Rightarrow> flattenCases fraction switchVarName afterPath rest st3 g3)"
  by pat_completeness auto
termination
proof (relation "measure (\<lambda>x. case x of
          Inl (fraction, outermost, stmts, l, g) \<Rightarrow> 2 * size_list size stmts + 1
        | Inr (Inl (fraction, outermost, stmts, st, g)) \<Rightarrow> 2 * size_list size stmts
        | Inr (Inr (fraction, v, a, cases, st, g)) \<Rightarrow> 2 * size_list size cases + 2)",
       simp_all add: size_GotoStatement, goal_cases)
  case (1 outermost stmt rest)
  then show ?case using size_switch_cases [of stmt] by simp
next
  case (2 outermost stmt rest st g x y xa ya xb yb xc)
  then show ?case
    using size_loop_body [of stmt "nodeName (nthChild stmt 0)" xc xa] by simp
next
  case (3 outermost stmt rest)
  then show ?case using size_if_body [of stmt 1] by (simp add: isFlattenableIf_def)
next
  case (4 fraction outermost stmt rest)
  then show ?case using size_if_body [of stmt 2] by simp
next
  case (5 switchCase)
  then show ?case using size_case_body [of switchCase] by simp
qed

section \<open>Control flow flattening: replacing the gotos\<close>

text \<open>
  Modelled from the spec: the constructors \<^verbatim>\<open>SwitchCase\<close>, \<^verbatim>\<open>SwitchStatement\<close>,
  \<^verbatim>\<open>WhileStatement\<close> and \<^verbatim>\<open>LabeledStatement\<close> of \<^verbatim>\<open>util/gen\<close> are not among the
  sources; \<^verbatim>\<open>WhileStatement\<close> takes the statements of its body, as \<^verbatim>\<open>IfStatement\<close> does.
\<close>

definition SwitchCase :: "node \<Rightarrow> node list \<Rightarrow> node" where
  "SwitchCase test consequent = Node ''SwitchCase'' NoAttr [test, Array consequent]"

definition SwitchStatement :: "node \<Rightarrow> node list \<Rightarrow> node" where
  "SwitchStatement d cs = Node ''SwitchStatement'' NoAttr [d, Array cs]"

definition WhileStatement :: "node \<Rightarrow> node list \<Rightarrow> node" where
  "WhileStatement test stmts = Node ''WhileStatement'' NoAttr [test, BlockStatement stmts]"

definition LabeledStatement :: "string \<Rightarrow> node \<Rightarrow> node" where
  "LabeledStatement l stmt = Node ''LabeledStatement'' NoAttr [Identifier l, stmt]"

text \<open>
  Lines 625 to 684: every statement of a chunk is walked. Modelled from the spec:
  \<^verbatim>\<open>walk\<close> of \<^verbatim>\<open>traverse\<close> is not among the sources; it calls the visitor on a node
  before its children, with the ancestors of the node, and runs the callback the visitor
  returns after the children.

  On the way down, a literal whose value is an integer below 100000 in absolute value
  costs one draw against \<^verbatim>\<open>4 / made\<close>; when the draw is below and no ancestor is a var
  context, \<^verbatim>\<open>made\<close> grows and the literal is replaced on the way up by
  \<^verbatim>\<open>numberLiteral\<close> of its value. On the way up, a \<^verbatim>\<open>GotoStatement\<close> is replaced by
  the expression statement of its transition; \<^verbatim>\<open>ok(nextStateValues, o.label)\<close> throws
  when the label has no state values, which is the result \<open>None\<close>. Each goto leaves one
  \<^verbatim>\<open>break\<close> to insert: in the nearest block above it, right after the statement of that
  block the goto is in, or, with no block above it, after the statement of the chunk
  (\<^verbatim>\<open>addBreak\<close>). The result of a walk is the new node, the number of gotos below it
  with no block in between, whether the node is a replaced literal, the stream and
  \<^verbatim>\<open>made\<close>. \<open>inBlock\<close> tells an array that it is the body of a block. A \<^verbatim>\<open>Property\<close> or
  \<^verbatim>\<open>MethodDefinition\<close> whose key, its first child, is replaced becomes computed
  (\<^verbatim>\<open>replaceIdentifierOrLiteral\<close> of \<^verbatim>\<open>transform.ts\<close>).
\<close>

definition integerLiteral :: "node \<Rightarrow> int option" where
  "integerLiteral n =
     (if ntype n = ''Literal''
      then (case attr n of
              Value (NumLit v) \<Rightarrow> if \<bar>v\<bar> < 100000 then Some v else None
            | _ \<Rightarrow> None)
      else None)"

definition pending :: "(node \<times> nat \<times> bool) list \<Rightarrow> nat" where
  "pending rs = sum_list (map (\<lambda>(c, k, replaced). k) rs)"

definition keyReplaced :: "(node \<times> nat \<times> bool) list \<Rightarrow> bool" where
  "keyReplaced rs = (case rs of [] \<Rightarrow> False | (c, k, replaced) # _ \<Rightarrow> replaced)"

definition withBreaks :: "string \<Rightarrow> (node \<times> nat \<times> bool) list \<Rightarrow> node list" where
  "withBreaks l rs = concat (map (\<lambda>(c, k, replaced). c # replicate k (BreakStatement l)) rs)"

fun walkFinal ::
  "encoding \<Rightarrow> int list \<Rightarrow> bool \<Rightarrow> bool \<Rightarrow> node \<Rightarrow> rng \<Rightarrow> nat
     \<Rightarrow> (node \<times> nat \<times> bool \<times> rng \<times> nat) option"
  and walkEach ::
  "encoding \<Rightarrow> int list \<Rightarrow> bool \<Rightarrow> bool \<Rightarrow> node list \<Rightarrow> rng \<Rightarrow> nat
     \<Rightarrow> ((node \<times> nat \<times> bool) list \<times> rng \<times> nat) option" where
  "walkFinal enc current inVar inBlock (Node t a cs) g made =
     (case (case integerLiteral (Node t a cs) of
              None \<Rightarrow> (None, g, made)
            | Some v \<Rightarrow>
                (case Math_random g of
                   (r, g1) \<Rightarrow>
                     if r < 4 / rat_of_nat made \<and> \<not> inVar then (Some v, g1, made + 1)
                     else (None, g1, made))) of
        (literal, g1, made1) \<Rightarrow>
          (case walkEach enc current (inVar \<or> isVarContext (Node t a cs))
                  (isBlock (Node t a cs)) cs g1 made1 of
             None \<Rightarrow> None
           | Some (rs, g2, made2) \<Rightarrow>
               (case literal of
                  Some v \<Rightarrow>
                    (case numberLiteral (stateVars enc) v 0 current g2 of
                       (e, g3) \<Rightarrow> Some (e, pending rs, True, g3, made2))
                | None \<Rightarrow>
                    if t = ''GotoStatement'' then
                      (case (case a of Label l \<Rightarrow> labelToStates enc l | _ \<Rightarrow> None) of
                         None \<Rightarrow> None
                       | Some nextStateValues \<Rightarrow>
                           (case gotoTransition (stateVars enc) current nextStateValues g2 of
                              (e, g3) \<Rightarrow>
                                Some (ExpressionStatement e, Suc (pending rs), False, g3, made2)))
                    else if t = ''Array'' \<and> inBlock then
                      Some (Node t a (withBreaks (switchLabel enc) rs), 0, False, g2, made2)
                    else
                      Some (Node t
                              (if (t = ''Property'' \<or> t = ''MethodDefinition'') \<and> keyReplaced rs
                               then Computed True else a)
                              (map fst rs), pending rs, False, g2, made2))))"
| "walkEach enc current inVar inBlock [] g made = Some ([], g, made)"
| "walkEach enc current inVar inBlock (c # cs) g made =
     (case walkFinal enc current inVar inBlock c g made of
        None \<Rightarrow> None
      | Some (c', k, replaced, g1, made1) \<Rightarrow>
          (case walkEach enc current inVar inBlock cs g1 made1 of
             None \<Rightarrow> None
           | Some (rs, g2, made2) \<Rightarrow> Some ((c', k, replaced) # rs, g2, made2)))"

fun walkStatements ::
  "encoding \<Rightarrow> int list \<Rightarrow> node list \<Rightarrow> nat \<Rightarrow> rng \<Rightarrow> nat
     \<Rightarrow> (node list \<times> nat list \<times> rng \<times> nat) option" where
  "walkStatements enc current [] stmtIndex g made = Some ([], [], g, made)"
| "walkStatements enc current (stmt # rest) stmtIndex g made =
     (case walkFinal enc current False False stmt g made of
        None \<Rightarrow> None
      | Some (stmt', k, replaced, g1, made1) \<Rightarrow>
          (case walkStatements enc current rest (Suc stmtIndex) g1 made1 of
             None \<Rightarrow> None
           | Some (rest', breaksInsertion, g2, made2) \<Rightarrow>
               Some (stmt' # rest',
                     (if 0 < k then [stmtIndex] else []) @ breaksInsertion, g2, made2)))"

text \<open>
  Lines 686 to 696: the indices of the statements that need a \<^verbatim>\<open>break\<close> are sorted
  with \<^verbatim>\<open>sort()\<close>, which compares the decimal strings of the numbers, then reversed,
  and a \<^verbatim>\<open>break\<close> to the switch label is spliced in after each index in turn.
\<close>

fun stringLess :: "string \<Rightarrow> string \<Rightarrow> bool" where
  "stringLess [] [] = False"
| "stringLess [] (y # ys) = True"
| "stringLess (x # xs) [] = False"
| "stringLess (x # xs) (y # ys) =
     ((of_char x :: nat) < of_char y \<or> (x = y \<and> stringLess xs ys))"

fun insertByString :: "nat \<Rightarrow> nat list \<Rightarrow> nat list" where
  "insertByString x [] = [x]"
| "insertByString x (y # ys) =
     (if stringLess (decimal x) (decimal y) then x # y # ys else y # insertByString x ys)"

definition defaultSort :: "nat list \<Rightarrow> nat list" where
  "defaultSort xs = foldr insertByString xs []"

definition splice :: "nat \<Rightarrow> 'a \<Rightarrow> 'a list \<Rightarrow> 'a list" where
  "splice i x xs = take i xs @ x # drop i xs"

definition insertBreaks :: "string \<Rightarrow> nat list \<Rightarrow> node list \<Rightarrow> node list" where
  "insertBreaks l breaksInsertion stmts =
     foldl (\<lambda>b i. splice (i + 1) (BreakStatement l) b) stmts (rev (defaultSort breaksInsertion))"

text \<open>
  Lines 612 to 710: the chunk that has the end label is skipped; every other chunk
  becomes a case with the state total of its index and its rewritten statements.
\<close>

fun finalChunks ::
  "encoding \<Rightarrow> string \<Rightarrow> chunk list \<Rightarrow> nat \<Rightarrow> rng \<Rightarrow> ((int \<times> node list) list \<times> rng) option" where
  "finalChunks enc endLabel [] i g = Some ([], g)"
| "finalChunks enc endLabel (c # cs) i g =
     (if label c = endLabel then finalChunks enc endLabel cs (Suc i) g
      else case labelToStates enc (label c) of
             None \<Rightarrow> None
           | Some current \<Rightarrow>
               (case walkStatements enc current (body c) 0 g 1 of
                  None \<Rightarrow> None
                | Some (stmts, breaksInsertion, g1, made) \<Rightarrow>
                    (case finalChunks enc endLabel cs (Suc i) g1 of
                       None \<Rightarrow> None
                     | Some (rest, g2) \<Rightarrow>
                         Some ((caseStates enc ! i,
                                insertBreaks (switchLabel enc) breaksInsertion stmts) # rest, g2))))"

text \<open>
  Lines 84 to 148, 442 to 454 and 712 to 748. The callback leaves the block untouched
  when it has fewer than three statements, when \<^verbatim>\<open>containsLexicallyBoundVariables\<close>
  holds, when \<^verbatim>\<open>ComputeProbabilityMap\<close> says no, or when a hoisted function is
  redefined; the helpers that decide the last three are not among the sources, so the
  three answers are arguments here. It also leaves the block untouched when there are
  fewer than three chunks. Otherwise the body becomes the clones of the function
  declarations, in reverse order (\<^verbatim>\<open>unshift\<close>), the declaration of the state variables
  with the values of the first chunk, and the loop around the labeled switch. The result
  \<open>None\<close> is a run whose \<^verbatim>\<open>do ... while\<close> loop of line 462 never ends; \<open>Thrown\<close> is a
  run that ends in an exception.
\<close>

datatype outcome = Untouched | Flattened "node list" | Thrown

definition endChunk :: "chunk list \<Rightarrow> chunk list" where
  "endChunk chunks =
     (case rev chunks of
        [] \<Rightarrow> []
      | c # earlier \<Rightarrow> rev earlier @ [c\<lparr>body := body c @ [GotoStatement ''END_LABEL'']\<rparr>])
     @ [\<lparr>label = ''END_LABEL'', body = []\<rparr>]"

definition assemble ::
  "node list \<Rightarrow> encoding \<Rightarrow> chunk list \<Rightarrow> (int \<times> node list) list \<Rightarrow> outcome" where
  "assemble functionDeclarations enc chunks cases =
     (case (discriminant (stateVars enc),
            labelToStates enc (label (hd chunks)),
            labelToStates enc (label (last chunks))) of
        (Some d, Some initStateValues, Some endStateValues) \<Rightarrow>
          Flattened
            (rev functionDeclarations
             @ [VariableDeclaration
                  (map (\<lambda>i. VariableDeclarator (Identifier (stateVars enc ! i))
                               (Some (Literal (NumLit (initStateValues ! i)))))
                     [0 ..< length (stateVars enc)]),
                WhileStatement
                  (BinaryExpression ''!='' d (Literal (NumLit (getCurrentState endStateValues))))
                  [LabeledStatement (switchLabel enc)
                     (SwitchStatement d
                        (map (\<lambda>(state, stmts). SwitchCase (Literal (NumLit state)) stmts) cases))]])
      | _ \<Rightarrow> Thrown)"

definition cffTransform :: "bool \<Rightarrow> bool \<Rightarrow> bool \<Rightarrow> node \<Rightarrow> rng \<Rightarrow> outcome option" where
  "cffTransform lexicallyBound enabled redefined blk g =
     (let stmts = blockBody blk
      in if length stmts < 3 \<or> lexicallyBound \<or> \<not> enabled \<or> stmts = [] \<or> redefined
         then Some Untouched
         else
           case getPlaceholder g of (startingLabel, g1) \<Rightarrow>
           case flattenBody (chunkFraction (length stmts)) True stmts startingLabel g1 of
             (flat, g2) \<Rightarrow>
               let chunks = endChunk flat
               in if length chunks < 3 then Some Untouched
                  else
                    case stateEncoding chunks g2 of
                      None \<Rightarrow> None
                    | Some (enc, g3) \<Rightarrow>
                        (case finalChunks enc (label (last chunks)) chunks 0 g3 of
                           None \<Rightarrow> Some Thrown
                         | Some (cases, g4) \<Rightarrow>
                             (case shuffle cases g4 of
                                (shuffled, g5) \<Rightarrow>
                                  Some (assemble
                                          (filter (\<lambda>s. ntype s = ''FunctionDeclaration'') stmts)
                                          enc chunks shuffled))))"

section \<open>Control flow flattening: an example block\<close>

text \<open>
  A block with a hoisted function, an \<^verbatim>\<open>if\<close> whose branch is a block, and two
  expression statements, one of them a number; and a stream of draws under which the
  block is cut into four chunks, with the goto of the \<^verbatim>\<open>if\<close> inside a block of its own.
\<close>

definition exampleBlock :: node where
  "exampleBlock =
     BlockStatement
       [Node ''FunctionDeclaration'' (FnFlags False False)
          [Identifier ''f'', Array [], BlockStatement []],
        IfStatement (Identifier ''x'') [ExpressionStatement (Identifier ''a'')] None,
        ExpressionStatement (Identifier ''b''),
        ExpressionStatement (Literal (NumLit 7))]"

definition flattenDraws :: "nat list" where
  "flattenDraws =
     [0, 0, 0, 0, 0, 0, 0, 0, 0, 100, 0, 0, 0, 0, 0, 0, 0, 0, 0, 200, 0, 0, 0, 0, 0, 0, 0, 0,
      0, 300, 0, 0, 0, 0, 0, 0, 0, 0, 0, 400, 0, 0, 0, 0, 0, 0, 0, 0, 0, 0, 500, 0, 0, 0, 0, 0,
      0, 0, 0, 0, 0, 600]"

definition encodingDraws :: "nat list" where
  "encodingDraws =
     [0, 0, 0, 0, 0, 0, 0, 0, 0, 0, 700, 0, 0, 0, 0, 0, 0, 0, 0, 0, 800, 0, 0, 0, 0, 0, 0, 0,
      0, 0, 900, 500, 600, 0, 500, 600, 0, 500, 600, 0, 500, 600, 0, 500, 600, 0]"

definition transitionDraws :: "nat list" where
  "transitionDraws =
     [900, 0, 0, 0, 900, 900, 0, 0, 0, 900, 900, 0, 0, 0, 900, 900, 0, 0, 0, 900, 900, 0, 0, 0,
      900, 900, 0, 0, 0, 900, 900, 0, 0, 0, 900, 900, 0, 0, 0, 900, 0, 0, 0, 0, 900, 900, 0, 0,
      0, 900, 900, 0, 0, 0, 900]"

definition exampleRun :: rng where
  "exampleRun =
     drawsFrom ([0, 0, 0, 0, 0, 0, 0, 0, 0, 0] @ flattenDraws @ [0, 100, 200, 300, 400]
                @ encodingDraws @ transitionDraws @ [0, 500, 0, 999])"

lemma drawsFrom_Suc: "drawsFrom (x # xs) \<circ> Suc = drawsFrom xs"
  by (rule ext) simp

lemma Math_random_drawsFrom:
  "Math_random (drawsFrom (x # xs)) = (rat_of_nat (x mod 1000) / 1000, drawsFrom xs)"
  by (simp add: Math_random_def drawsFrom_Suc)

lemma getRandomInteger_drawsFrom:
  "getRandomInteger lo hi (drawsFrom (x # xs))
     = (lo + (int (x mod 1000) * (hi - lo)) div 1000, drawsFrom xs)"
  by (simp add: getRandomInteger_draw drawsFrom_Suc)

lemma getPlaceholder_drawsFrom:
  "getPlaceholder (drawsFrom (d0 # d1 # d2 # d3 # d4 # d5 # d6 # d7 # d8 # d9 # ds))
     = (''__p_'' @ map (\<lambda>d. digitChar (int (d mod 1000) div 100))
                     [d0, d1, d2, d3, d4, d5, d6, d7, d8, d9],
        drawsFrom ds)"
  by (simp add: getPlaceholder_def genRanHex_def arrayFillMap_numeral genRanHex_draw
      drawsFrom_Suc)

definition exampleFlat :: "chunk list" where
  "exampleFlat =
     [\<lparr>label = ''__p_0000000000'', body = [GotoStatement ''__p_0000000001'']\<rparr>,
      \<lparr>label = ''__p_0000000002'',
         body = [ExpressionStatement (Identifier ''a''), GotoStatement ''__p_0000000004'']\<rparr>,
      \<lparr>label = ''__p_0000000001'',
         body = [IfStatement (Identifier ''x'') [GotoStatement ''__p_0000000002''] None,
                 GotoStatement ''__p_0000000004'']\<rparr>,
      \<lparr>label = ''__p_0000000004'',
         body = [ExpressionStatement (Identifier ''b''),
                 ExpressionStatement (Literal (NumLit 7))]\<rparr>]"

lemma exampleBlock_chunks:
  "flattenBody (chunkFraction 4) True (blockBody exampleBlock) ''__p_0000000000''
     (drawsFrom (flattenDraws @ ds)) = (exampleFlat, drawsFrom ds)"
  by (simp add: exampleBlock_def flattenDraws_def exampleFlat_def blockBody_def nthChild_def
      BlockStatement_def Array_def IfStatement_def ExpressionStatement_def Identifier_def
      Literal_def GotoStatement_def Null_def isFlattenableLabeled_def isFlattenableIf_def
      finishCurrentChunk_def pushStatement_def pushChunks_def popLastGoto_def
      getPlaceholder_drawsFrom Math_random_drawsFrom chunkFraction_def baseFraction_def
      digitChar_def Let_def)

definition exampleChunkList :: "chunk list" where
  "exampleChunkList =
     [\<lparr>label = ''__p_0000000000'', body = [GotoStatement ''__p_0000000001'']\<rparr>,
      \<lparr>label = ''__p_0000000002'',
         body = [ExpressionStatement (Identifier ''a''), GotoStatement ''__p_0000000004'']\<rparr>,
      \<lparr>label = ''__p_0000000001'',
         body = [IfStatement (Identifier ''x'') [GotoStatement ''__p_0000000002''] None,
                 GotoStatement ''__p_0000000004'']\<rparr>,
      \<lparr>label = ''__p_0000000004'',
         body = [ExpressionStatement (Identifier ''b''),
                 ExpressionStatement (Literal (NumLit 7)),
                 GotoStatement ''END_LABEL'']\<rparr>,
      \<lparr>label = ''END_LABEL'', body = []\<rparr>]"

lemma exampleFlat_endChunk: "endChunk exampleFlat = exampleChunkList"
  by (simp add: endChunk_def exampleFlat_def exampleChunkList_def)

definition exampleEncoding :: encoding where
  "exampleEncoding =
     \<lparr>caseStates = [1, 8, 15, 23, 30],
      stateVars = [''__p_0000000007'', ''__p_0000000008''],
      switchLabel = ''__p_0000000009'',
      chunkStates = [[- 49, 50], [- 42, 50], [- 35, 50], [- 27, 50], [- 20, 50]],
      labelToStates =
        [''__p_0000000000'' \<mapsto> [- 49, 50], ''__p_0000000002'' \<mapsto> [- 42, 50],
         ''__p_0000000001'' \<mapsto> [- 35, 50], ''__p_0000000004'' \<mapsto> [- 27, 50],
         ''END_LABEL'' \<mapsto> [- 20, 50]]\<rparr>"

lemma exampleChunkList_states:
  "drawStates [] 5 (drawsFrom (0 # 100 # 200 # 300 # 400 # ds))
     = Some ([1, 8, 15, 23, 30], drawsFrom ds)"
  apply (subst drawStates.simps)
  apply (simp add: getRandomInteger_drawsFrom)
  apply (subst drawStates.simps)
  apply (simp add: getRandomInteger_drawsFrom)
  apply (subst drawStates.simps)
  apply (simp add: getRandomInteger_drawsFrom)
  apply (subst drawStates.simps)
  apply (simp add: getRandomInteger_drawsFrom)
  apply (subst drawStates.simps)
  apply (simp add: getRandomInteger_drawsFrom)
  done

lemma exampleChunkList_encoding:
  "stateEncoding exampleChunkList (drawsFrom (0 # 100 # 200 # 300 # 400 # encodingDraws @ ds))
     = Some (exampleEncoding, drawsFrom ds)"
proof -
  have len: "length exampleChunkList = 5" by (simp add: exampleChunkList_def)
  show ?thesis
    unfolding stateEncoding_def len exampleChunkList_states option.case prod.case
    by (simp add: exampleChunkList_def encodingDraws_def exampleEncoding_def
        getRandomInteger_drawsFrom getPlaceholder_drawsFrom
        arrayFillMap_numeral newStateValues_def getCurrentState_def digitChar_def)
qed

definition exampleTransition :: "int \<Rightarrow> int \<Rightarrow> node" where
  "exampleTransition x y =
     ExpressionStatement
       (SequenceExpression
          [AssignmentExpression ''+='' (Identifier ''__p_0000000007'')
             (BinaryExpression ''+'' (Identifier ''__p_0000000007'') (Literal (NumLit x))),
           AssignmentExpression ''+='' (Identifier ''__p_0000000008'')
             (BinaryExpression ''+'' (Identifier ''__p_0000000007'') (Literal (NumLit y)))])"

definition exampleCases :: "(int \<times> node list) list" where
  "exampleCases =
     [(1, [exampleTransition 63 35, BreakStatement ''__p_0000000009'']),
      (8, [ExpressionStatement (Identifier ''a''), exampleTransition 57 27,
           BreakStatement ''__p_0000000009'']),
      (15, [IfStatement (Identifier ''x'')
              [exampleTransition 28 42, BreakStatement ''__p_0000000009''] None,
            exampleTransition 43 27, BreakStatement ''__p_0000000009'']),
      (23, [ExpressionStatement (Identifier ''b''),
            ExpressionStatement
              (BinaryExpression ''+'' (Identifier ''__p_0000000007'') (Literal (NumLit 34))),
            exampleTransition 34 20, BreakStatement ''__p_0000000009''])]"

lemma exampleChunkList_cases:
  "finalChunks exampleEncoding ''END_LABEL'' exampleChunkList 0
     (drawsFrom (transitionDraws @ ds)) = Some (exampleCases, drawsFrom ds)"
  by (simp add: exampleEncoding_def exampleChunkList_def transitionDraws_def exampleCases_def
      exampleTransition_def integerLiteral_def pending_def keyReplaced_def withBreaks_def
      insertBreaks_def defaultSort_def splice_def isVarContext_def isBlock_def
      gotoTransition_def createTransitionExpression_def numberLiteral.simps
      Math_random_drawsFrom getRandomInteger_drawsFrom
      BlockStatement_def Array_def IfStatement_def ExpressionStatement_def Identifier_def
      Literal_def GotoStatement_def Null_def BreakStatement_def SequenceExpression_def
      AssignmentExpression_def BinaryExpression_def Let_def)

definition exampleOutput :: "node list" where
  "exampleOutput =
     [Node ''FunctionDeclaration'' (FnFlags False False)
        [Identifier ''f'', Array [], BlockStatement []],
      VariableDeclaration
        [VariableDeclarator (Identifier ''__p_0000000007'') (Some (Literal (NumLit (- 49)))),
         VariableDeclarator (Identifier ''__p_0000000008'') (Some (Literal (NumLit 50)))],
      WhileStatement
        (BinaryExpression ''!=''
           (BinaryExpression ''+'' (Identifier ''__p_0000000007'') (Identifier ''__p_0000000008''))
           (Literal (NumLit 30)))
        [LabeledStatement ''__p_0000000009''
           (SwitchStatement
              (BinaryExpression ''+'' (Identifier ''__p_0000000007'')
                 (Identifier ''__p_0000000008''))
              (map (\<lambda>(state, stmts). SwitchCase (Literal (NumLit state)) stmts)
                 [exampleCases ! 1, exampleCases ! 3, exampleCases ! 2, exampleCases ! 0]))]]"

lemma exampleCases_shuffled:
  "shuffle exampleCases (drawsFrom [0, 500, 0, 999])
     = ([exampleCases ! 1, exampleCases ! 3, exampleCases ! 2, exampleCases ! 0], drawsFrom [])"
  by (simp add: exampleCases_def getRandomInteger_drawsFrom)

lemma exampleChunkList_assembled:
  "assemble
     [Node ''FunctionDeclaration'' (FnFlags False False)
        [Identifier ''f'', Array [], BlockStatement []]]
     exampleEncoding exampleChunkList
     [exampleCases ! 1, exampleCases ! 3, exampleCases ! 2, exampleCases ! 0]
   = Flattened exampleOutput"
  by (simp add: assemble_def exampleEncoding_def exampleChunkList_def exampleOutput_def
      discriminant_def getCurrentState_def)

lemma exampleBlock_flattened:
  "cffTransform False True False exampleBlock exampleRun = Some (Flattened exampleOutput)"
proof -
  have stmts: "blockBody exampleBlock =
      [Node ''FunctionDeclaration'' (FnFlags False False)
         [Identifier ''f'', Array [], BlockStatement []],
       IfStatement (Identifier ''x'') [ExpressionStatement (Identifier ''a'')] None,
       ExpressionStatement (Identifier ''b''),
       ExpressionStatement (Literal (NumLit 7))]"
    by (simp add: exampleBlock_def blockBody_def nthChild_def BlockStatement_def Array_def)
  have len: "length (blockBody exampleBlock) = 4" by (simp add: stmts)
  have fds: "filter (\<lambda>s. ntype s = ''FunctionDeclaration'') (blockBody exampleBlock)
             = [Node ''FunctionDeclaration'' (FnFlags False False)
                  [Identifier ''f'', Array [], BlockStatement []]]"
    by (simp add: stmts IfStatement_def ExpressionStatement_def)
  have start: "getPlaceholder exampleRun
     = (''__p_0000000000'',
        drawsFrom (flattenDraws @ [0, 100, 200, 300, 400] @ encodingDraws @ transitionDraws
                   @ [0, 500, 0, 999]))"
    by (simp add: exampleRun_def getPlaceholder_drawsFrom digitChar_def)
  have gate: "\<not> ((4::nat) < 3 \<or> False \<or> \<not> True \<or> blockBody exampleBlock = [] \<or> False)"
    by (simp add: stmts)
  have short: "\<not> length exampleChunkList < 3" by (simp add: exampleChunkList_def)
  have endLabel: "label (last exampleChunkList) = ''END_LABEL''"
    by (simp add: exampleChunkList_def)
  have enc: "stateEncoding exampleChunkList
               (drawsFrom ([0, 100, 200, 300, 400] @ encodingDraws @ transitionDraws
                           @ [0, 500, 0, 999]))
             = Some (exampleEncoding, drawsFrom (transitionDraws @ [0, 500, 0, 999]))"
    using exampleChunkList_encoding [of "transitionDraws @ [0, 500, 0, 999]"] by simp
  show ?thesis
    by (simp only: cffTransform_def Let_def len if_not_P [OF gate] start prod.case
        exampleBlock_chunks exampleFlat_endChunk if_not_P [OF short] enc option.case endLabel
        exampleChunkList_cases fds exampleCases_shuffled exampleChunkList_assembled)
qed

section \<open>Facts about the final pass\<close>

lemma numberLiteral_no_goto: "\<not> containsGoto (fst (numberLiteral vars num depth vals g))"
proof (induction d \<equiv> "11 - depth" arbitrary: depth num g)
  case 0
  then have "depth > 10" by simp
  then show ?case
    by (simp add: numberLiteral.simps [of vars num depth vals g] Literal_def)
next
  case (Suc d)
  then have d: "d = 11 - (depth + 1)" by simp
  have ih: "\<not> containsGoto e" if "numberLiteral vars n (depth + 1) vals h = (e, h')" for n h e h'
    using Suc.hyps(1) [OF d, of n h] that by simp
  obtain r1 g1 where m1: "Math_random g = (r1, g1)" by (cases "Math_random g")
  obtain opposing g2 where o: "getRandomInteger 0 (int (length vars)) g1 = (opposing, g2)"
    by (cases "getRandomInteger 0 (int (length vars)) g1")
  obtain r2 g3 where m2: "Math_random g2 = (r2, g3)" by (cases "Math_random g2")
  obtain x g4 where x: "getRandomInteger (- 250) 250 g3 = (x, g4)"
    by (cases "getRandomInteger (- 250) 250 g3")
  obtain operator g5 where c: "choice ''<'' [''>''] g4 = (operator, g5)"
    by (cases "choice ''<'' [''>''] g4")
  obtain correct g6 where n1: "numberLiteral vars num (depth + 1) vals g5 = (correct, g6)"
    by (cases "numberLiteral vars num (depth + 1) vals g5")
  obtain y g7 where y: "getRandomInteger (- 250) 250 g6 = (y, g7)"
    by (cases "getRandomInteger (- 250) 250 g6")
  obtain incorrect g8 where n2: "numberLiteral vars y (depth + 1) vals g7 = (incorrect, g8)"
    by (cases "numberLiteral vars y (depth + 1) vals g7")
  obtain test g9 where n3: "numberLiteral vars x (depth + 1) vals g8 = (test, g9)"
    by (cases "numberLiteral vars x (depth + 1) vals g8")
  obtain e h where n4:
    "numberLiteral vars (num - vals ! nat opposing) (depth + 1) vals g3 = (e, h)"
    by (cases "numberLiteral vars (num - vals ! nat opposing) (depth + 1) vals g3")
  note parts = ih [OF n1] ih [OF n2] ih [OF n3] ih [OF n4]
  show ?case
    unfolding numberLiteral.simps [of vars num depth vals g] m1 o m2 x c n1 y n2 n3 n4
      prod.case Let_def
    using parts
    by (simp add: Literal_def ConditionalExpression_def BinaryExpression_def Identifier_def)
qed

lemma createTransitionExpression_no_goto:
  "\<not> containsGoto (fst (createTransitionExpression vars index add mutating g))"
proof -
  have nl: "\<not> containsGoto e" if "numberLiteral vars n d vs h = (e, h')" for n d vs h e h'
    using numberLiteral_no_goto [of vars n d vs h] that by simp
  show ?thesis
    by (auto simp: createTransitionExpression_def Let_def AssignmentExpression_def
        SequenceExpression_def Array_def Identifier_def split: prod.splits dest: nl)
qed

lemma transitions_no_goto:
  "e \<in> set (fst (transitions vars nextVals i n mutating g)) \<Longrightarrow> \<not> containsGoto e"
proof (induction n arbitrary: i mutating g)
  case 0
  then show ?case by simp
next
  case (Suc n)
  obtain x m1 g1 where
    c: "createTransitionExpression vars i (nextVals ! i - mutating ! i) mutating g = (x, m1, g1)"
    by (cases "createTransitionExpression vars i (nextVals ! i - mutating ! i) mutating g")
  have x: "\<not> containsGoto x"
    using createTransitionExpression_no_goto [of vars i "nextVals ! i - mutating ! i" mutating g] c
    by simp
  from Suc.prems have "e = x \<or> e \<in> set (fst (transitions vars nextVals (Suc i) n m1 g1))"
    by (auto simp: Let_def c split: prod.splits)
  then show ?case using x Suc.IH by blast
qed

lemma gotoTransition_no_goto:
  "\<not> containsGoto (ExpressionStatement (fst (gotoTransition vars current nextVals g)))"
  using transitions_no_goto [of _ vars nextVals 0 "length current" current g]
  by (auto simp: gotoTransition_def ExpressionStatement_def SequenceExpression_def Array_def
      list_ex_iff split: prod.splits)

lemma BreakStatement_no_goto: "\<not> containsGoto (BreakStatement l)"
  by (simp add: BreakStatement_def Identifier_def)

lemma withBreaks_no_goto:
  "\<forall>r \<in> set rs. \<not> containsGoto (fst r) \<Longrightarrow> s \<in> set (withBreaks l rs) \<Longrightarrow> \<not> containsGoto s"
  using BreakStatement_no_goto by (auto simp: withBreaks_def)

lemma walk_no_goto:
  "walkFinal enc current inVar inBlock n g made = Some (n', k, f, g', made') \<Longrightarrow> \<not> containsGoto n'"
  "walkEach enc current inVar inBlock ns g made = Some (rs, g', made') \<Longrightarrow>
     \<forall>r \<in> set rs. \<not> containsGoto (fst r)"
proof (induction enc current inVar inBlock n g made and enc current inVar inBlock ns g made
    arbitrary: n' k f g' made' and rs g' made' rule: walkFinal_walkEach.induct)
  case (1 enc current inVar inBlock t a cs g made)
  define drawn where "drawn =
           (case integerLiteral (Node t a cs) of
              None \<Rightarrow> (None, g, made)
            | Some v \<Rightarrow>
                (case Math_random g of
                   (r, g1) \<Rightarrow>
                     if r < 4 / rat_of_nat made \<and> \<not> inVar then (Some v, g1, made + 1)
                     else (None, g1, made)))"
  obtain literal g1 made1 where d: "drawn = (literal, g1, made1)" by (cases drawn)
  have
    l: "(case integerLiteral (Node t a cs) of
              None \<Rightarrow> (None, g, made)
            | Some v \<Rightarrow>
                (case Math_random g of
                   (r, g1) \<Rightarrow>
                     if r < 4 / rat_of_nat made \<and> \<not> inVar then (Some v, g1, made + 1)
                     else (None, g1, made))) = (literal, g1, made1)"
    using d by (simp only: drawn_def)
  note p0 = "1.prems" [unfolded walkFinal.simps l prod.case]
  obtain rs g2 made2 where
    w: "walkEach enc current (inVar \<or> isVarContext (Node t a cs)) (isBlock (Node t a cs)) cs g1 made1
          = Some (rs, g2, made2)"
    using p0
    by (cases "walkEach enc current (inVar \<or> isVarContext (Node t a cs)) (isBlock (Node t a cs))
                 cs g1 made1") auto
  note p = p0 [unfolded w option.case prod.case]
  have ih: "\<forall>r \<in> set rs. \<not> containsGoto (fst r)"
    using "1.IH" [OF l [symmetric] refl w] .
  show ?case
  proof (cases literal)
    case (Some v)
    then have "n' = fst (numberLiteral (stateVars enc) v 0 current g2)"
      using p by (auto split: prod.splits)
    then show ?thesis by (simp add: numberLiteral_no_goto)
  next
    case None
    note q = p [unfolded None option.case]
    show ?thesis
    proof (cases "t = ''GotoStatement''")
      case True
      then obtain nextVals e g3 where
        "gotoTransition (stateVars enc) current nextVals g2 = (e, g3)"
        and "n' = ExpressionStatement e"
        using q by (auto split: prod.splits option.splits)
      then show ?thesis
        using gotoTransition_no_goto [of "stateVars enc" current nextVals g2] by simp
    next
      case False
      note q' = q [unfolded if_not_P [OF False]]
      show ?thesis
      proof (cases "t = ''Array'' \<and> inBlock")
        case True
        then have "n' = Node t a (withBreaks (switchLabel enc) rs)" using q' by simp
        then show ?thesis
          using False withBreaks_no_goto [OF ih, of _ "switchLabel enc"]
          by (auto simp: list_ex_iff)
      next
        case no: False
        then obtain a' where "n' = Node t a' (map fst rs)" using q' by auto
        then show ?thesis using False ih by (auto simp: list_ex_iff)
      qed
    qed
  qed
next
  case (2 enc current inVar inBlock g made)
  then show ?case by simp
next
  case (3 enc current inVar inBlock c cs g made)
  obtain c' k1 f1 g1 made1 where
    wc: "walkFinal enc current inVar inBlock c g made = Some (c', k1, f1, g1, made1)"
    using "3.prems" by (auto split: option.splits)
  note p0 = "3.prems" [unfolded walkEach.simps wc option.case prod.case]
  obtain rs1 g2 made2 where
    we: "walkEach enc current inVar inBlock cs g1 made1 = Some (rs1, g2, made2)"
    using p0 by (cases "walkEach enc current inVar inBlock cs g1 made1") auto
  have rs: "rs = (c', k1, f1) # rs1" using p0 by (simp add: we)
  show ?case
    using "3.IH"(1) [OF wc] "3.IH"(2) [OF wc refl refl refl refl we] by (simp add: rs)
qed

lemma walkStatements_no_goto:
  "walkStatements enc current stmts i g made = Some (stmts', bs, g', made') \<Longrightarrow>
     \<forall>s \<in> set stmts'. \<not> containsGoto s"
proof (induction stmts arbitrary: i g made stmts' bs g' made')
  case Nil
  then show ?case by simp
next
  case (Cons stmt rest)
  obtain s1 k f g1 made1 where
    w: "walkFinal enc current False False stmt g made = Some (s1, k, f, g1, made1)"
    using Cons.prems by (auto split: option.splits)
  note p0 = Cons.prems [unfolded walkStatements.simps w option.case prod.case]
  obtain rest1 bs1 g2 made2 where
    r: "walkStatements enc current rest (Suc i) g1 made1 = Some (rest1, bs1, g2, made2)"
    using p0 by (cases "walkStatements enc current rest (Suc i) g1 made1") auto
  have "stmts' = s1 # rest1" using p0 by (simp add: r)
  then show ?case using walk_no_goto(1) [OF w] Cons.IH [OF r] by simp
qed

lemma set_splice: "set (splice i x xs) = insert x (set xs)"
proof -
  have "set (take i xs) \<union> set (drop i xs) = set xs"
    by (metis append_take_drop_id set_append)
  then show ?thesis by (auto simp: splice_def)
qed

lemma foldl_splice_set:
  "set (foldl (\<lambda>b i. splice (f i) x b) xs is) \<subseteq> insert x (set xs)"
proof (induction "is" arbitrary: xs)
  case Nil
  then show ?case by auto
next
  case (Cons i "is")
  show ?case using Cons [of "splice (f i) x xs"] by (auto simp: set_splice)
qed

lemma insertBreaks_no_goto:
  assumes "\<forall>s \<in> set stmts. \<not> containsGoto s" and "s \<in> set (insertBreaks l bs stmts)"
  shows "\<not> containsGoto s"
proof -
  have "s = BreakStatement l \<or> s \<in> set stmts"
    using assms(2) foldl_splice_set [of "\<lambda>i. i + 1" "BreakStatement l" stmts "rev (defaultSort bs)"]
    by (auto simp: insertBreaks_def)
  then show ?thesis using assms(1) BreakStatement_no_goto by auto
qed

lemma finalChunks_no_goto:
  "finalChunks enc endLabel chunks i g = Some (cases, g') \<Longrightarrow>
     \<forall>c \<in> set cases. \<forall>s \<in> set (snd c). \<not> containsGoto s"
proof (induction chunks arbitrary: i g cases g')
  case Nil
  then show ?case by simp
next
  case (Cons c cs)
  show ?case
  proof (cases "label c = endLabel")
    case True
    then show ?thesis using Cons.prems Cons.IH by simp
  next
    case False
    note p0 = Cons.prems [unfolded finalChunks.simps if_not_P [OF False]]
    obtain current where cur: "labelToStates enc (label c) = Some current"
      using p0 by (cases "labelToStates enc (label c)") auto
    note p1 = p0 [unfolded cur option.case]
    obtain stmts bs g1 made where
      w: "walkStatements enc current (body c) 0 g 1 = Some (stmts, bs, g1, made)"
      using p1 by (cases "walkStatements enc current (body c) 0 g 1") auto
    note p2 = p1 [unfolded w option.case prod.case]
    obtain rest g2 where r: "finalChunks enc endLabel cs (Suc i) g1 = Some (rest, g2)"
      using p2 by (cases "finalChunks enc endLabel cs (Suc i) g1") auto
    have cases: "cases = (caseStates enc ! i, insertBreaks (switchLabel enc) bs stmts) # rest"
      using p2 by (simp add: r)
    have "\<forall>s \<in> set (insertBreaks (switchLabel enc) bs stmts). \<not> containsGoto s"
      using insertBreaks_no_goto [OF walkStatements_no_goto [OF w]] by blast
    then show ?thesis using Cons.IH [OF r] by (simp add: cases)
  qed
qed

lemma foldl_sum_no_goto:
  "\<not> containsGoto e \<Longrightarrow>
     \<not> containsGoto (foldl (\<lambda>e x. BinaryExpression ''+'' e (Identifier x)) e vs)"
  by (induction vs arbitrary: e) (simp_all add: BinaryExpression_def Identifier_def)

lemma discriminant_no_goto: "discriminant vars = Some d \<Longrightarrow> \<not> containsGoto d"
  using foldl_sum_no_goto [of "Identifier (hd vars)" "tl vars"]
  by (cases vars) (auto simp: discriminant_def Identifier_def)

lemma assemble_no_goto:
  assumes a: "assemble fds enc chunks cases = Flattened out"
    and fds: "\<forall>s \<in> set fds. \<not> containsGoto s"
    and cases: "\<forall>c \<in> set cases. \<forall>s \<in> set (snd c). \<not> containsGoto s"
  shows "\<not> list_ex containsGoto out"
proof -
  obtain d where d: "discriminant (stateVars enc) = Some d"
    using a by (cases "discriminant (stateVars enc)") (auto simp: assemble_def)
  obtain init where i: "labelToStates enc (label (hd chunks)) = Some init"
    using a by (cases "labelToStates enc (label (hd chunks))") (auto simp: assemble_def d)
  obtain endVals where e: "labelToStates enc (label (last chunks)) = Some endVals"
    using a by (cases "labelToStates enc (label (last chunks))") (auto simp: assemble_def d i)
  have nd: "\<not> containsGoto d" using d by (rule discriminant_no_goto)
  have out: "out = rev fds
             @ [VariableDeclaration
                  (map (\<lambda>i. VariableDeclarator (Identifier (stateVars enc ! i))
                               (Some (Literal (NumLit (init ! i)))))
                     [0 ..< length (stateVars enc)]),
                WhileStatement
                  (BinaryExpression ''!='' d (Literal (NumLit (getCurrentState endVals))))
                  [LabeledStatement (switchLabel enc)
                     (SwitchStatement d
                        (map (\<lambda>(state, stmts). SwitchCase (Literal (NumLit state)) stmts) cases))]]"
    using a by (simp add: assemble_def d i e)
  have decl: "\<not> containsGoto (VariableDeclaration
                  (map (\<lambda>i. VariableDeclarator (Identifier (stateVars enc ! i))
                               (Some (Literal (NumLit (init ! i)))))
                     [0 ..< length (stateVars enc)]))"
    by (simp add: VariableDeclaration_def Array_def VariableDeclarator_def Identifier_def
        Literal_def list_ex_iff)
  have sw: "\<not> containsGoto
              (SwitchStatement d
                 (map (\<lambda>(state, stmts). SwitchCase (Literal (NumLit state)) stmts) cases))"
    using nd cases
    by (auto simp: SwitchStatement_def SwitchCase_def Array_def Literal_def list_ex_iff)
  have loop: "\<not> containsGoto (WhileStatement
                  (BinaryExpression ''!='' d (Literal (NumLit (getCurrentState endVals))))
                  [LabeledStatement (switchLabel enc)
                     (SwitchStatement d
                        (map (\<lambda>(state, stmts). SwitchCase (Literal (NumLit state)) stmts) cases))])"
    using nd sw
    by (simp add: WhileStatement_def BlockStatement_def Array_def BinaryExpression_def
        Literal_def LabeledStatement_def Identifier_def)
  show ?thesis unfolding out using fds decl loop by (simp add: list_ex_iff)
qed

section \<open>Claim about the gotos of control flow flattening\<close>

text \<open>
  C3: when the transform callback of control flow flattening returns with the body of a
  block rewritten, no \<^verbatim>\<open>GotoStatement\<close> is left anywhere in the new body. Every
  statement of every case has gone through the final pass, which replaces each goto, at
  any depth, by the expression statement of its state transition, and the chunk with
  the end label is dropped. The hoisted function declarations are clones of the input,
  so they are required to hold no goto, which is so for every parsed program: the goto
  is a node only the flattening creates.
\<close>

theorem cffTransform_leaves_no_goto:
  assumes t: "cffTransform lexicallyBound enabled redefined blk g = Some (Flattened out)"
    and fds: "\<forall>s \<in> set (blockBody blk). ntype s = ''FunctionDeclaration'' \<longrightarrow> \<not> containsGoto s"
  shows "\<not> list_ex containsGoto out"
proof -
  let ?stmts = "blockBody blk"
  have gate: "\<not> (length ?stmts < 3 \<or> lexicallyBound \<or> \<not> enabled \<or> ?stmts = [] \<or> redefined)"
  proof
    assume "length ?stmts < 3 \<or> lexicallyBound \<or> \<not> enabled \<or> ?stmts = [] \<or> redefined"
    then have "cffTransform lexicallyBound enabled redefined blk g = Some Untouched"
      unfolding cffTransform_def Let_def by (rule if_P)
    then show False using t by simp
  qed
  obtain startingLabel g1 where sl: "getPlaceholder g = (startingLabel, g1)"
    by (cases "getPlaceholder g")
  obtain flat g2 where
    fl: "flattenBody (chunkFraction (length ?stmts)) True ?stmts startingLabel g1 = (flat, g2)"
    by (cases "flattenBody (chunkFraction (length ?stmts)) True ?stmts startingLabel g1")
  let ?chunks = "endChunk flat"
  note t0 = t [unfolded cffTransform_def Let_def if_not_P [OF gate] sl prod.case fl]
  have len: "\<not> length ?chunks < 3" using t0 by (auto split: if_splits)
  note t1 = t0 [unfolded if_not_P [OF len]]
  obtain enc g3 where se: "stateEncoding ?chunks g2 = Some (enc, g3)"
    using t1 by (cases "stateEncoding ?chunks g2") auto
  note t2 = t1 [unfolded se option.case prod.case]
  obtain cases g4 where fc: "finalChunks enc (label (last ?chunks)) ?chunks 0 g3 = Some (cases, g4)"
    using t2 by (cases "finalChunks enc (label (last ?chunks)) ?chunks 0 g3") auto
  note t3 = t2 [unfolded fc option.case prod.case]
  obtain shuffled g5 where sh: "shuffle cases g4 = (shuffled, g5)" by (cases "shuffle cases g4")
  have a: "assemble (filter (\<lambda>s. ntype s = ''FunctionDeclaration'') ?stmts) enc ?chunks shuffled
           = Flattened out"
    using t3 by (simp add: sh)
  have "set shuffled = set cases" using shuffle_set [of cases g4] sh by simp
  then have cs: "\<forall>c \<in> set shuffled. \<forall>s \<in> set (snd c). \<not> containsGoto s"
    using finalChunks_no_goto [OF fc] by simp
  show ?thesis by (rule assemble_no_goto [OF a _ cs]) (use fds in auto)
qed

theorem cffTransform_leaves_no_goto_witness:
  "cffTransform False True False exampleBlock exampleRun = Some (Flattened exampleOutput)
   \<and> list_ex (\<lambda>s. ntype s = ''FunctionDeclaration'') (blockBody exampleBlock)
   \<and> \<not> list_ex containsGoto exampleOutput"
proof -
  have stmts: "blockBody exampleBlock =
      [Node ''FunctionDeclaration'' (FnFlags False False)
         [Identifier ''f'', Array [], BlockStatement []],
       IfStatement (Identifier ''x'') [ExpressionStatement (Identifier ''a'')] None,
       ExpressionStatement (Identifier ''b''),
       ExpressionStatement (Literal (NumLit 7))]"
    by (simp add: exampleBlock_def blockBody_def nthChild_def BlockStatement_def Array_def)
  have "\<forall>s \<in> set (blockBody exampleBlock).
          ntype s = ''FunctionDeclaration'' \<longrightarrow> \<not> containsGoto s"
    by (simp add: stmts IfStatement_def ExpressionStatement_def Identifier_def Array_def
        BlockStatement_def)
  then show ?thesis
    using cffTransform_leaves_no_goto [OF exampleBlock_flattened]
    by (simp add: exampleBlock_flattened stmts)
qed

end
